theory Spec2Isabelle
  imports Complex_Main
begin

text \<open>
  A model of the destru frontend's two units: the user store and the structure
  viewport with its camera controller. Definitions come first, each next to a note on
  the source lines it stands for; the properties follow, section by section.
\<close>

section \<open>The user store (src/stores/user.store.ts)\<close>

text \<open>
  The pinia store holds two fields, \<open>flag\<close> and \<open>user\<close>. The \<open>User\<close> type is opaque
  to the store and is a type parameter here; \<open>null\<close> is \<open>None\<close>.
\<close>

record 'u UserStore =
  flag :: bool
  user :: "'u option"

definition initial_state :: "'u UserStore" where
  "initial_state = \<lparr>flag = False, user = None\<rparr>"

text \<open>
  The two endpoints of the HTTP client are not part of the repository. A call either
  resolves (\<open>Inr\<close>) or rejects (\<open>Inl\<close>) with a reason of type \<open>'e\<close>; the client is a
  parameter of the action.
\<close>

record ('e, 'u) api =
  getUserName :: "string \<Rightarrow> 'e + string"
  getUser :: "string \<Rightarrow> 'e + 'u"

text \<open>
  What the action does to the outside and to the store, in program order: a write to a
  field of the store, or a request sent to the client.
\<close>

datatype 'u effect =
    WriteFlag bool
  | WriteUser "'u option"
  | CallGetUserName string
  | CallGetUser string

text \<open>
  The settlement of the promise \<open>set\<close> returns, or the point at which the coroutine is
  suspended: \<open>AwaitUserName id\<close> is the first \<open>await\<close> (the request for \<open>id\<close> is out),
  \<open>AwaitUser name\<close> the second.
\<close>

datatype 'e outcome =
    Fulfilled
  | Rejected 'e
  | AwaitUserName string
  | AwaitUser string

text \<open>
  \<open>if (id)\<close>: the parameter is optional, and JavaScript's truthiness makes both
  \<open>undefined\<close> and the empty string take the \<open>else\<close> branch. \<open>truthy_id\<close> returns
  the id the \<open>then\<close> branch runs with, or \<open>None\<close> for the \<open>else\<close> branch.
\<close>

fun truthy_id :: "string option \<Rightarrow> string option" where
  "truthy_id None = None"
| "truthy_id (Some s) = (if s = [] then None else Some s)"

text \<open>
  The body of \<open>set\<close> up to its first suspension point (or to its end, in the \<open>else\<close>
  branch): the new store, the effects in order, and where the coroutine stands.
\<close>

definition set_enter ::
  "string option \<Rightarrow> 'u UserStore \<Rightarrow> 'u UserStore \<times> 'u effect list \<times> 'e outcome" where
  "set_enter uid s =
     (case truthy_id uid of
        Some i \<Rightarrow> (s\<lparr>flag := True\<rparr>, [WriteFlag True, CallGetUserName i], AwaitUserName i)
      | None \<Rightarrow> (s\<lparr>flag := False, user := None\<rparr>, [WriteFlag False, WriteUser None], Fulfilled))"

text \<open>
  Resumption after the first \<open>await\<close>: a rejection is rethrown out of the \<open>async\<close>
  function (there is no \<open>try\<close>), a resolved name is passed to \<open>getUser\<close>.
\<close>

definition set_resume_name ::
  "'e + string \<Rightarrow> 'u UserStore \<Rightarrow> 'u UserStore \<times> 'u effect list \<times> 'e outcome" where
  "set_resume_name r s =
     (case r of
        Inl e \<Rightarrow> (s, [], Rejected e)
      | Inr name \<Rightarrow> (s, [CallGetUser name], AwaitUser name))"

text \<open>Resumption after the second \<open>await\<close>: only here is \<open>user\<close> assigned.\<close>

definition set_resume_user ::
  "'e + 'u \<Rightarrow> 'u UserStore \<Rightarrow> 'u UserStore \<times> 'u effect list \<times> 'e outcome" where
  "set_resume_user r s =
     (case r of
        Inl e \<Rightarrow> (s, [], Rejected e)
      | Inr u \<Rightarrow> (s\<lparr>user := Some u\<rparr>, [WriteUser (Some u)], Fulfilled))"

text \<open>
  One call of \<open>set\<close> run to its settlement against a client, with nothing else touching
  the store in between: the three segments above, chained at the suspension points.
\<close>

definition set_action ::
  "('e, 'u) api \<Rightarrow> string option \<Rightarrow> 'u UserStore \<Rightarrow> 'u UserStore \<times> 'u effect list \<times> 'e outcome" where
  "set_action a uid s =
     (case set_enter uid s of
        (s1, fx1, AwaitUserName i) \<Rightarrow>
          (case set_resume_name (getUserName a i) s1 of
             (s2, fx2, AwaitUser name) \<Rightarrow>
               (case set_resume_user (getUser a name) s2 of
                  (s3, fx3, out) \<Rightarrow> (s3, fx1 @ fx2 @ fx3, out))
           | (s2, fx2, out) \<Rightarrow> (s2, fx1 @ fx2, out))
      | (s1, fx1, out) \<Rightarrow> (s1, fx1, out))"

text \<open>A request to the client, as opposed to a write to the store.\<close>

fun is_call :: "'u effect \<Rightarrow> bool" where
  "is_call (CallGetUserName _) = True"
| "is_call (CallGetUser _) = True"
| "is_call _ = False"

section \<open>JavaScript numbers\<close>

text \<open>
  Every field of the camera is a JavaScript number: a finite double, an infinity or
  \<open>NaN\<close>. A finite value is modelled as the exact real it stands for, so rounding is
  abstracted away (and with it the half unit in the last place above the largest
  double that still rounds to it). Everything else is kept: a result whose magnitude
  exceeds the largest double is an infinity, a division by zero yields an infinity or
  \<open>NaN\<close>, and \<open>NaN\<close> propagates.

  The coordinates and deltas that DOM events carry are finite (WebIDL restricted
  doubles); they enter the arithmetic as \<open>Fin\<close> values.
\<close>

datatype number = Fin real | PosInf | NegInf | NaN

text \<open>
  \<open>Number.MAX_VALUE\<close>; the exact values that do not overflow; and the result of an
  operation whose exact value is \<open>r\<close>.
\<close>

definition MAX_VALUE :: real where
  "MAX_VALUE = (2 - 1 / 2 ^ 52) * 2 ^ 1023"

definition in_range :: "real \<Rightarrow> bool" where
  "in_range r = (\<bar>r\<bar> \<le> MAX_VALUE)"

definition overflow :: "real \<Rightarrow> number" where
  "overflow r =
     (if MAX_VALUE < r then PosInf
      else if r < - MAX_VALUE then NegInf
      else Fin r)"

text \<open>Unary minus, \<open>a + b\<close> and \<open>a - b\<close>.\<close>

fun js_neg :: "number \<Rightarrow> number" where
  "js_neg (Fin a) = Fin (- a)"
| "js_neg PosInf = NegInf"
| "js_neg NegInf = PosInf"
| "js_neg NaN = NaN"

fun js_add :: "number \<Rightarrow> number \<Rightarrow> number" where
  "js_add NaN _ = NaN"
| "js_add _ NaN = NaN"
| "js_add (Fin a) (Fin b) = overflow (a + b)"
| "js_add PosInf NegInf = NaN"
| "js_add NegInf PosInf = NaN"
| "js_add PosInf _ = PosInf"
| "js_add _ PosInf = PosInf"
| "js_add NegInf _ = NegInf"
| "js_add _ NegInf = NegInf"

definition js_sub :: "number \<Rightarrow> number \<Rightarrow> number" where
  "js_sub a b = js_add a (js_neg b)"

text \<open>
  \<open>a / b\<close>. A zero divisor is read as \<open>+0\<close>: the only divisor in the program that can
  be zero is a quotient of two results of \<open>Math.hypot\<close>, which is never negative.
\<close>

fun js_div :: "number \<Rightarrow> number \<Rightarrow> number" where
  "js_div NaN _ = NaN"
| "js_div _ NaN = NaN"
| "js_div (Fin a) (Fin b) =
     (if b \<noteq> 0 then overflow (a / b)
      else if 0 < a then PosInf
      else if a < 0 then NegInf
      else NaN)"
| "js_div (Fin a) _ = Fin 0"
| "js_div PosInf (Fin b) = (if 0 \<le> b then PosInf else NegInf)"
| "js_div NegInf (Fin b) = (if 0 \<le> b then NegInf else PosInf)"
| "js_div _ _ = NaN"

text \<open>\<open>a ** 2\<close> and \<open>Math.sqrt(a)\<close>.\<close>

fun js_pow2 :: "number \<Rightarrow> number" where
  "js_pow2 (Fin a) = overflow (a\<^sup>2)"
| "js_pow2 PosInf = PosInf"
| "js_pow2 NegInf = PosInf"
| "js_pow2 NaN = NaN"

fun js_sqrt :: "number \<Rightarrow> number" where
  "js_sqrt (Fin a) = (if a < 0 then NaN else Fin (sqrt a))"
| "js_sqrt PosInf = PosInf"
| "js_sqrt NegInf = NaN"
| "js_sqrt NaN = NaN"

text \<open>
  \<open>Math.hypot(a, b)\<close>: infinite if either argument is, otherwise \<open>NaN\<close> if either
  argument is, otherwise the Euclidean length \<open>hypot a b\<close>.
\<close>

definition hypot :: "real \<Rightarrow> real \<Rightarrow> real" where
  "hypot a b = sqrt (a\<^sup>2 + b\<^sup>2)"

fun js_hypot :: "number \<Rightarrow> number \<Rightarrow> number" where
  "js_hypot PosInf _ = PosInf"
| "js_hypot NegInf _ = PosInf"
| "js_hypot _ PosInf = PosInf"
| "js_hypot _ NegInf = PosInf"
| "js_hypot NaN _ = NaN"
| "js_hypot _ NaN = NaN"
| "js_hypot (Fin a) (Fin b) = overflow (hypot a b)"

text \<open>\<open>Math.max\<close> and \<open>Math.min\<close> of two numbers: \<open>NaN\<close> if either argument is.\<close>

fun js_max :: "number \<Rightarrow> number \<Rightarrow> number" where
  "js_max NaN _ = NaN"
| "js_max _ NaN = NaN"
| "js_max PosInf _ = PosInf"
| "js_max _ PosInf = PosInf"
| "js_max NegInf b = b"
| "js_max a NegInf = a"
| "js_max (Fin a) (Fin b) = Fin (max a b)"

fun js_min :: "number \<Rightarrow> number \<Rightarrow> number" where
  "js_min NaN _ = NaN"
| "js_min _ NaN = NaN"
| "js_min NegInf _ = NegInf"
| "js_min _ NegInf = NegInf"
| "js_min PosInf b = b"
| "js_min a PosInf = a"
| "js_min (Fin a) (Fin b) = Fin (min a b)"

text \<open>
  \<open>x % m\<close>: \<open>NaN\<close> for an infinite \<open>x\<close> or a zero \<open>m\<close>, \<open>x\<close> itself for a finite \<open>x\<close> and
  an infinite \<open>m\<close>, and otherwise the remainder of the division truncated towards
  zero, which has the sign of \<open>x\<close>.
\<close>

definition js_trunc :: "real \<Rightarrow> int" where
  "js_trunc q = (if 0 \<le> q then \<lfloor>q\<rfloor> else \<lceil>q\<rceil>)"

fun js_rem :: "number \<Rightarrow> number \<Rightarrow> number" where
  "js_rem NaN _ = NaN"
| "js_rem _ NaN = NaN"
| "js_rem PosInf _ = NaN"
| "js_rem NegInf _ = NaN"
| "js_rem (Fin x) (Fin m) = (if m = 0 then NaN else Fin (x - m * of_int (js_trunc (x / m))))"
| "js_rem (Fin x) _ = Fin x"

text \<open>Truthiness of a number, and the comparison \<open>a <= b\<close> (false when either is \<open>NaN\<close>).\<close>

fun truthy :: "number \<Rightarrow> bool" where
  "truthy (Fin a) = (a \<noteq> 0)"
| "truthy NaN = False"
| "truthy _ = True"


section \<open>The camera controller (class InteractiveCanvas)\<close>

text \<open>
  The events, with the fields the handlers read. A touch is its pair
  \<open>(clientX, clientY)\<close>; a touch event is its list \<open>touches\<close>.
\<close>

record MouseEvent =
  button :: int
  clientX :: real
  clientY :: real

record WheelEvent =
  deltaY :: real

type_synonym Touch = "real \<times> real"

type_synonym TouchEvent = "Touch list"

text \<open>
  The fields of an instance. \<open>dragPos\<close>, \<open>pinchStartDist\<close> and \<open>pinchStartViewDist\<close> are
  \<open>null\<close> (\<open>None\<close>) or a value; \<open>dragPos\<close> holds coordinates copied from an event. The
  constructor parameter \<open>size\<close> is the field \<open>size3\<close>. The fields \<open>canvas\<close> and
  \<open>onRender\<close> belong to the component and are modelled with it, below.
\<close>

record InteractiveCanvas =
  xRot :: number
  yRot :: number
  dragPos :: "(real \<times> real) option"
  pinchStartDist :: "number option"
  pinchStartViewDist :: "number option"
  size3 :: "real \<times> real \<times> real"
  center :: "number \<times> number \<times> number"
  viewDist :: number
  maxViewDist :: number

text \<open>
  The constructor, with the defaults of its parameters (the only call in the
  repository passes \<open>size\<close> alone) and the field initialisers.
\<close>

fun new_InteractiveCanvas :: "real \<times> real \<times> real \<Rightarrow> InteractiveCanvas" where
  "new_InteractiveCanvas (sx, sy, sz) =
     (let vd = js_sqrt (js_add (js_add (js_pow2 (Fin sx)) (js_pow2 (Fin sy))) (js_pow2 (Fin sz)))
      in \<lparr>xRot = Fin 0.5, yRot = Fin 0.5, dragPos = None, pinchStartDist = None,
          pinchStartViewDist = None,
          size3 = (sx, sy, sz),
          center = (js_div (Fin sx) (Fin 2), js_div (Fin sy) (Fin 2), js_div (Fin sz) (Fin 2)),
          viewDist = vd,
          maxViewDist = js_pow2 vd\<rparr>)"

text \<open>
  The handlers. A handler that can call \<open>this.redraw()\<close> returns, beside the new
  state, whether it did: \<open>redraw\<close> only requests an animation frame, and the frame
  queue is part of the component's state. \<open>preventDefault\<close> has no effect on the
  instance and is left out.
\<close>

definition handleMouseDown :: "MouseEvent \<Rightarrow> InteractiveCanvas \<Rightarrow> InteractiveCanvas" where
  "handleMouseDown evt s =
     (if button evt = 0 then s\<lparr>dragPos := Some (clientX evt, clientY evt)\<rparr> else s)"

definition handleMouseMove ::
  "MouseEvent \<Rightarrow> InteractiveCanvas \<Rightarrow> InteractiveCanvas \<times> bool" where
  "handleMouseMove evt s =
     (case dragPos s of
        Some (ax, ay) \<Rightarrow>
          (s\<lparr>yRot := js_add (yRot s) (js_div (js_sub (Fin (clientX evt)) (Fin ax)) (Fin 100)),
             xRot := js_add (xRot s) (js_div (js_sub (Fin (clientY evt)) (Fin ay)) (Fin 100)),
             dragPos := Some (clientX evt, clientY evt)\<rparr>, True)
      | None \<Rightarrow> (s, False))"

definition handleMouseUp :: "InteractiveCanvas \<Rightarrow> InteractiveCanvas" where
  "handleMouseUp s = s\<lparr>dragPos := None\<rparr>"

definition handleWheel ::
  "WheelEvent \<Rightarrow> InteractiveCanvas \<Rightarrow> InteractiveCanvas \<times> bool" where
  "handleWheel evt s =
     (s\<lparr>viewDist := js_add (viewDist s) (js_div (Fin (deltaY evt)) (Fin 100))\<rparr>, True)"

fun handleTouchStart :: "TouchEvent \<Rightarrow> InteractiveCanvas \<Rightarrow> InteractiveCanvas" where
  "handleTouchStart [touch] s = s\<lparr>dragPos := Some touch, pinchStartDist := None\<rparr>"
| "handleTouchStart [t1, t2] s =
     s\<lparr>pinchStartDist :=
         Some (js_hypot (js_sub (Fin (fst t2)) (Fin (fst t1)))
                        (js_sub (Fin (snd t2)) (Fin (snd t1)))),
       pinchStartViewDist := Some (viewDist s),
       dragPos := None\<rparr>"
| "handleTouchStart _ s = s"

text \<open>
  In \<open>handleTouchMove\<close> the test \<open>this.dragPos\<close> is a test for non-null (an array is
  truthy); the test \<open>this.pinchStartDist\<close> is false for \<open>null\<close>, for \<open>0\<close> and for
  \<open>NaN\<close>.
\<close>

fun handleTouchMove ::
  "TouchEvent \<Rightarrow> InteractiveCanvas \<Rightarrow> InteractiveCanvas \<times> bool" where
  "handleTouchMove [touch] s =
     (case dragPos s of
        Some (ax, ay) \<Rightarrow>
          (s\<lparr>yRot := js_add (yRot s) (js_div (js_sub (Fin (fst touch)) (Fin ax)) (Fin 100)),
             xRot := js_add (xRot s) (js_div (js_sub (Fin (snd touch)) (Fin ay)) (Fin 100)),
             dragPos := Some touch\<rparr>, True)
      | None \<Rightarrow> (s, False))"
| "handleTouchMove [t1, t2] s =
     (case (pinchStartDist s, pinchStartViewDist s) of
        (Some d, Some v) \<Rightarrow>
          (if truthy d
           then (let currentDist = js_hypot (js_sub (Fin (fst t2)) (Fin (fst t1)))
                                            (js_sub (Fin (snd t2)) (Fin (snd t1)));
                     scale = js_div currentDist d
                 in (s\<lparr>viewDist := js_div v scale\<rparr>, True))
           else (s, False))
      | _ \<Rightarrow> (s, False))"
| "handleTouchMove _ s = (s, False)"

fun handleTouchEnd :: "TouchEvent \<Rightarrow> InteractiveCanvas \<Rightarrow> InteractiveCanvas" where
  "handleTouchEnd [] s =
     s\<lparr>dragPos := None, pinchStartDist := None, pinchStartViewDist := None\<rparr>"
| "handleTouchEnd [touch] s =
     s\<lparr>dragPos := Some touch, pinchStartDist := None, pinchStartViewDist := None\<rparr>"
| "handleTouchEnd _ s = s"

text \<open>
  The view matrix is built by gl-matrix from four parameters: a translation by
  \<open>-viewDist\<close> along z, a rotation by \<open>xRot\<close> about x, a rotation by \<open>yRot\<close> about y,
  and a translation by \<open>-center\<close>. The library is not part of the repository; the view
  is represented by these parameters.
\<close>

record View =
  view_viewDist :: number
  view_xRot :: number
  view_yRot :: number
  view_center :: "number \<times> number \<times> number"

text \<open>
  \<open>renderImmediately\<close>: wrap and clamp the fields, then build the view that is handed
  to \<open>onRender\<close>. The constants \<open>Math.PI * 2\<close>, \<open>-Math.PI / 2\<close> and \<open>Math.PI / 2\<close> are
  finite.
\<close>

definition renderImmediately :: "InteractiveCanvas \<Rightarrow> InteractiveCanvas \<times> View" where
  "renderImmediately s =
     (let s1 = s\<lparr>yRot := js_rem (yRot s) (Fin (pi * 2))\<rparr>;
          s2 = s1\<lparr>xRot := js_max (Fin (- pi / 2)) (js_min (Fin (pi / 2)) (xRot s1))\<rparr>;
          s3 = s2\<lparr>viewDist := js_min (js_max (viewDist s2) (Fin 1)) (maxViewDist s2)\<rparr>
      in (s3, \<lparr>view_viewDist = viewDist s3, view_xRot = xRot s3, view_yRot = yRot s3,
                view_center = center s3\<rparr>))"

text \<open>
  What can happen to one instance: one of the seven events its constructor listens
  for, or an animation frame that runs a pending \<open>renderImmediately\<close>.
\<close>

datatype DomEvent =
    MouseDown MouseEvent
  | MouseMove MouseEvent
  | MouseUp MouseEvent
  | Wheel WheelEvent
  | TouchStart TouchEvent
  | TouchMove TouchEvent
  | TouchEnd TouchEvent

fun handleEvent :: "DomEvent \<Rightarrow> InteractiveCanvas \<Rightarrow> InteractiveCanvas \<times> bool" where
  "handleEvent (MouseDown e) s = (handleMouseDown e s, False)"
| "handleEvent (MouseMove e) s = handleMouseMove e s"
| "handleEvent (MouseUp e) s = (handleMouseUp s, False)"
| "handleEvent (Wheel e) s = handleWheel e s"
| "handleEvent (TouchStart e) s = (handleTouchStart e s, False)"
| "handleEvent (TouchMove e) s = handleTouchMove e s"
| "handleEvent (TouchEnd e) s = (handleTouchEnd e s, False)"

datatype Step = Event DomEvent | Frame

fun step :: "InteractiveCanvas \<Rightarrow> Step \<Rightarrow> InteractiveCanvas" where
  "step s (Event e) = fst (handleEvent e s)"
| "step s Frame = fst (renderImmediately s)"

definition run :: "InteractiveCanvas \<Rightarrow> Step list \<Rightarrow> InteractiveCanvas" where
  "run s steps = foldl step s steps"

text \<open>
  What can happen during a two-finger gesture between its start and one of its moves:
  any event but a new touch start or a touch end, and animation frames.
\<close>

fun pinch_step :: "Step \<Rightarrow> bool" where
  "pinch_step (Event (TouchStart _)) = False"
| "pinch_step (Event (TouchEnd _)) = False"
| "pinch_step _ = True"

section \<open>The viewport component\<close>

text \<open>
  The component owns one canvas element, whose \<open>ownerDocument\<close> is the page's
  document. Objects that the code compares or replaces by identity (instances of
  \<open>StructureRenderer\<close> and of \<open>InteractiveCanvas\<close>) are references into a store.
\<close>

type_synonym Ref = nat

text \<open>
  The seven arrow-function properties of an instance. A callback registered at the
  DOM is such a property of one instance: the pair of the instance's reference and the
  property's name identifies it.
\<close>

datatype Handler =
    HandleMouseDown
  | HandleMouseMove
  | HandleMouseUp
  | HandleWheel
  | HandleTouchStart
  | HandleTouchMove
  | HandleTouchEnd

text \<open>An event listener: the event type it is registered for, and the callback.\<close>

type_synonym Listener = "string \<times> Ref \<times> Handler"

text \<open>
  \<open>addEventListener\<close> appends the listener unless the same type and callback are
  registered already; \<open>removeEventListener\<close> removes the matching listener.
\<close>

definition addEventListener :: "Listener \<Rightarrow> Listener list \<Rightarrow> Listener list" where
  "addEventListener l ls = (if l \<in> set ls then ls else ls @ [l])"

definition removeEventListener :: "Listener \<Rightarrow> Listener list \<Rightarrow> Listener list" where
  "removeEventListener l ls = remove1 l ls"

record CanvasElement =
  width :: nat
  height :: nat
  webgl :: bool \<comment> \<open>whether \<open>getContext('webgl')\<close> returns a context\<close>

record ContainerElement =
  clientWidth :: nat
  clientHeight :: nat

record Options =
  grid :: bool
  invisibleBlocks :: bool

text \<open>
  The calls made on the WebGL context and on the renderer, in order; the renderer is
  given by its reference.
\<close>

datatype GlCall =
    Clear
  | Viewport nat nat
  | DrawStructure Ref View
  | DrawGrid Ref View
  | DrawInvisibleBlocks Ref View

text \<open>
  A callback passed to \<open>requestAnimationFrame\<close>: the component's \<open>redraw\<close>, or the
  closure \<open>() => this.renderImmediately()\<close> of an instance.
\<close>

datatype FrameCallback = Redraw | RenderImmediately Ref

text \<open>
  The state of one mounted component: the two template refs, the props, the refs of
  the resource store, the two module-level variables \<open>renderer\<close> and
  \<open>interactiveCanvas\<close>, the store of instances with its allocation counter, the
  listener lists of the canvas element and of its document, the queue of requested
  animation frames, the log of draw calls, the number of exceptions thrown out of a
  frame callback, and whether the resize observer is observing the container.
\<close>

record Component =
  container :: "ContainerElement option"
  canvas :: "CanvasElement option"
  structure_size :: "real \<times> real \<times> real"
  options :: Options
  isReady :: bool
  resources :: "nat option"
  renderer :: "Ref option"
  interactiveCanvas :: "Ref option"
  instances :: "Ref \<Rightarrow> InteractiveCanvas option"
  next_ref :: Ref
  canvas_listeners :: "Listener list"
  document_listeners :: "Listener list"
  frames :: "FrameCallback list"
  gl_calls :: "GlCall list"
  uncaught :: nat
  observing :: bool

text \<open>The callback of the \<open>ResizeObserver\<close>.\<close>

definition resizeObserver_callback :: "Component \<Rightarrow> Component" where
  "resizeObserver_callback w =
     (case (container w, canvas w) of
        (Some c, Some cv) \<Rightarrow>
          w\<lparr>canvas := Some (cv\<lparr>width := clientWidth c, height := clientHeight c\<rparr>),
            frames := frames w @ [Redraw]\<rparr>
      | _ \<Rightarrow> w)"

text \<open>
  The constructor of \<open>InteractiveCanvas\<close> inside the component: a new instance is
  allocated and its seven handlers are registered, in the order of the source.
\<close>

definition construct_InteractiveCanvas ::
  "real \<times> real \<times> real \<Rightarrow> Component \<Rightarrow> Ref \<times> Component" where
  "construct_InteractiveCanvas sz w =
     (let r = next_ref w;
          c1 = addEventListener (''mousedown'', r, HandleMouseDown) (canvas_listeners w);
          d1 = addEventListener (''mousemove'', r, HandleMouseMove) (document_listeners w);
          d2 = addEventListener (''mouseup'', r, HandleMouseUp) d1;
          c2 = addEventListener (''wheel'', r, HandleWheel) c1;
          c3 = addEventListener (''touchstart'', r, HandleTouchStart) c2;
          c4 = addEventListener (''touchmove'', r, HandleTouchMove) c3;
          c5 = addEventListener (''touchend'', r, HandleTouchEnd) c4
      in (r, w\<lparr>instances := (instances w)(r \<mapsto> new_InteractiveCanvas sz),
               next_ref := Suc r,
               canvas_listeners := c5,
               document_listeners := d2\<rparr>))"

text \<open>\<open>destroy()\<close> of the instance \<open>r\<close>.\<close>

definition destroy :: "Ref \<Rightarrow> Component \<Rightarrow> Component" where
  "destroy r w =
     (let c1 = removeEventListener (''mousedown'', r, HandleMouseDown) (canvas_listeners w);
          d1 = removeEventListener (''mousemove'', r, HandleMouseMove) (document_listeners w);
          d2 = removeEventListener (''mouseup'', r, HandleMouseUp) d1;
          c2 = removeEventListener (''wheel'', r, HandleWheel) c1;
          c3 = removeEventListener (''touchstart'', r, HandleTouchStart) c2;
          c4 = removeEventListener (''touchmove'', r, HandleTouchMove) c3;
          c5 = removeEventListener (''touchend'', r, HandleTouchEnd) c4
      in w\<lparr>canvas_listeners := c5, document_listeners := d2\<rparr>)"

text \<open>The method \<open>redraw()\<close> of the instance \<open>r\<close>: it requests a frame.\<close>

definition ic_redraw :: "Ref \<Rightarrow> Component \<Rightarrow> Component" where
  "ic_redraw r w = w\<lparr>frames := frames w @ [RenderImmediately r]\<rparr>"

text \<open>
  The render callback that \<open>redraw\<close> passes to every instance. It reads
  \<open>canvas.value\<close>, \<open>renderer\<close> and \<open>props.options\<close> when it runs; reading a property of
  a missing canvas or calling a method on a null renderer throws, which ends the
  callback.
\<close>

definition onRender :: "View \<Rightarrow> Component \<Rightarrow> Component" where
  "onRender view w =
     (let w1 = w\<lparr>gl_calls := gl_calls w @ [Clear]\<rparr>
      in case canvas w1 of
           None \<Rightarrow> w1\<lparr>uncaught := Suc (uncaught w1)\<rparr>
         | Some cv \<Rightarrow>
             (let w2 = w1\<lparr>gl_calls := gl_calls w1 @ [Viewport (width cv) (height cv)]\<rparr>
              in case renderer w2 of
                   None \<Rightarrow> w2\<lparr>uncaught := Suc (uncaught w2)\<rparr>
                 | Some rr \<Rightarrow>
                     (let w3 = w2\<lparr>gl_calls := gl_calls w2 @ [DrawStructure rr view]\<rparr>;
                          w4 = (if grid (options w3)
                                then w3\<lparr>gl_calls := gl_calls w3 @ [DrawGrid rr view]\<rparr>
                                else w3)
                      in if invisibleBlocks (options w4)
                         then w4\<lparr>gl_calls := gl_calls w4 @ [DrawInvisibleBlocks rr view]\<rparr>
                         else w4)))"

text \<open>
  The component's \<open>redraw\<close>: after its guards it destroys the current camera
  controller, drops the current renderer, and builds a new renderer and a new
  controller for the current structure.
\<close>

definition redraw :: "Component \<Rightarrow> Component" where
  "redraw w =
     (if \<not> isReady w \<or> resources w = None then w
      else (case canvas w of
              None \<Rightarrow> w
            | Some cv \<Rightarrow>
                (if \<not> webgl cv then w
                 else
                   (let w1 = (case interactiveCanvas w of
                                Some i \<Rightarrow> (destroy i w)\<lparr>interactiveCanvas := None\<rparr>
                              | None \<Rightarrow> w);
                        w2 = (case renderer w1 of
                                Some _ \<Rightarrow> w1\<lparr>renderer := None\<rparr>
                              | None \<Rightarrow> w1);
                        sz = structure_size w2;
                        w3 = w2\<lparr>renderer := Some (next_ref w2), next_ref := Suc (next_ref w2)\<rparr>;
                        (i, w4) = construct_InteractiveCanvas sz w3;
                        w5 = w4\<lparr>interactiveCanvas := Some i\<rparr>
                    in ic_redraw i w5))))"

text \<open>
  One animation frame runs the oldest requested callback. A \<open>RenderImmediately\<close>
  callback runs on its instance whether or not that instance has been destroyed.
\<close>

definition run_frame :: "Component \<Rightarrow> Component" where
  "run_frame w =
     (case frames w of
        [] \<Rightarrow> w
      | Redraw # fs \<Rightarrow> redraw (w\<lparr>frames := fs\<rparr>)
      | RenderImmediately r # fs \<Rightarrow>
          (case instances w r of
             None \<Rightarrow> w\<lparr>frames := fs\<rparr>
           | Some s \<Rightarrow>
               (let (s', view) = renderImmediately s
                in onRender view (w\<lparr>frames := fs, instances := (instances w)(r \<mapsto> s')\<rparr>))))"

text \<open>
  Dispatch. The type of an event is the string its listeners are registered under. A
  callback runs the handler it names on its instance; a redraw the handler asks for
  becomes a requested frame. (The constructor registers each handler under its own
  event type only, so the last equation of \<open>call_handler\<close> is never reached from a
  listener the component has registered.)
\<close>

fun event_type :: "DomEvent \<Rightarrow> string" where
  "event_type (MouseDown _) = ''mousedown''"
| "event_type (MouseMove _) = ''mousemove''"
| "event_type (MouseUp _) = ''mouseup''"
| "event_type (Wheel _) = ''wheel''"
| "event_type (TouchStart _) = ''touchstart''"
| "event_type (TouchMove _) = ''touchmove''"
| "event_type (TouchEnd _) = ''touchend''"

fun call_handler ::
  "Handler \<Rightarrow> DomEvent \<Rightarrow> InteractiveCanvas \<Rightarrow> InteractiveCanvas \<times> bool" where
  "call_handler HandleMouseDown (MouseDown e) s = (handleMouseDown e s, False)"
| "call_handler HandleMouseMove (MouseMove e) s = handleMouseMove e s"
| "call_handler HandleMouseUp (MouseUp e) s = (handleMouseUp s, False)"
| "call_handler HandleWheel (Wheel e) s = handleWheel e s"
| "call_handler HandleTouchStart (TouchStart e) s = (handleTouchStart e s, False)"
| "call_handler HandleTouchMove (TouchMove e) s = handleTouchMove e s"
| "call_handler HandleTouchEnd (TouchEnd e) s = (handleTouchEnd e s, False)"
| "call_handler _ _ s = (s, False)"

definition invoke :: "DomEvent \<Rightarrow> Component \<Rightarrow> Listener \<Rightarrow> Component" where
  "invoke e w l =
     (case l of (t, r, h) \<Rightarrow>
        (if t \<noteq> event_type e then w
         else (case instances w r of
                 None \<Rightarrow> w
               | Some s \<Rightarrow>
                   (let (s', redrawn) = call_handler h e s;
                        w1 = w\<lparr>instances := (instances w)(r \<mapsto> s')\<rparr>
                    in (if redrawn then ic_redraw r w1 else w1)))))"

text \<open>
  The target of an event is the canvas or the document outside it. All seven event
  types bubble, so an event on the canvas reaches the canvas's listeners and then the
  document's.
\<close>

datatype Target = OnCanvas | OnDocument

definition dispatch :: "Target \<Rightarrow> DomEvent \<Rightarrow> Component \<Rightarrow> Component" where
  "dispatch tgt e w =
     foldl (invoke e) w
       ((case tgt of OnCanvas \<Rightarrow> canvas_listeners w | OnDocument \<Rightarrow> []) @ document_listeners w)"

text \<open>The lifecycle hooks and the watcher on the two options.\<close>

definition onMounted :: "Component \<Rightarrow> Component" where
  "onMounted w = (if container w \<noteq> None then w\<lparr>observing := True\<rparr> else w)"

definition onUnmounted :: "Component \<Rightarrow> Component" where
  "onUnmounted w =
     (let w1 = w\<lparr>observing := False\<rparr>
      in case interactiveCanvas w1 of Some i \<Rightarrow> destroy i w1 | None \<Rightarrow> w1)"

definition watch_options :: "Component \<Rightarrow> Component" where
  "watch_options w = (case interactiveCanvas w of Some i \<Rightarrow> ic_redraw i w | None \<Rightarrow> w)"

text \<open>
  What can happen to a component, and its state before anything has: no renderer, no
  controller, no listener, no frame requested. The resize observer calls back only
  while it observes the container; the watcher runs only when one of the two options
  has changed. The template refs, the props and the resource store change from
  outside.
\<close>

datatype Action =
    Mounted
  | Unmounted
  | Resized
  | AnimationFrame
  | Dispatched Target DomEvent
  | OptionsChanged Options
  | ContainerChanged "ContainerElement option"
  | CanvasChanged "CanvasElement option"
  | ResourcesChanged bool "nat option"
  | StructureChanged "real \<times> real \<times> real"

fun act :: "Component \<Rightarrow> Action \<Rightarrow> Component" where
  "act w Mounted = onMounted w"
| "act w Unmounted = onUnmounted w"
| "act w Resized = (if observing w then resizeObserver_callback w else w)"
| "act w AnimationFrame = run_frame w"
| "act w (Dispatched tgt e) = dispatch tgt e w"
| "act w (OptionsChanged os) =
     (if grid os \<noteq> grid (options w) \<or> invisibleBlocks os \<noteq> invisibleBlocks (options w)
      then watch_options (w\<lparr>options := os\<rparr>)
      else w\<lparr>options := os\<rparr>)"
| "act w (ContainerChanged c) = w\<lparr>container := c\<rparr>"
| "act w (CanvasChanged c) = w\<lparr>canvas := c\<rparr>"
| "act w (ResourcesChanged ready rs) = w\<lparr>isReady := ready, resources := rs\<rparr>"
| "act w (StructureChanged sz) = w\<lparr>structure_size := sz\<rparr>"

definition initial_component ::
  "ContainerElement option \<Rightarrow> CanvasElement option \<Rightarrow> real \<times> real \<times> real \<Rightarrow> Options \<Rightarrow>
   bool \<Rightarrow> nat option \<Rightarrow> Component" where
  "initial_component c cv sz os ready rs =
     \<lparr>container = c, canvas = cv, structure_size = sz, options = os, isReady = ready,
      resources = rs, renderer = None, interactiveCanvas = None, instances = (\<lambda>_. None),
      next_ref = 0, canvas_listeners = [], document_listeners = [], frames = [],
      gl_calls = [], uncaught = 0, observing = False\<rparr>"

text \<open>
  The invariant of the listener lists: no listener is registered twice, and every
  listener is a handler registered under the event type, and at the target, that the
  constructor uses for it, for an instance that has been allocated.
\<close>

fun canvas_binding :: "Listener \<Rightarrow> bool" where
  "canvas_binding (t, r, h) =
     ((t, h) \<in> set [(''mousedown'', HandleMouseDown), (''wheel'', HandleWheel),
                    (''touchstart'', HandleTouchStart), (''touchmove'', HandleTouchMove),
                    (''touchend'', HandleTouchEnd)])"

fun document_binding :: "Listener \<Rightarrow> bool" where
  "document_binding (t, r, h) =
     ((t, h) \<in> set [(''mousemove'', HandleMouseMove), (''mouseup'', HandleMouseUp)])"

definition allocated :: "Component \<Rightarrow> Ref option \<Rightarrow> bool" where
  "allocated w x = (case x of None \<Rightarrow> True | Some r \<Rightarrow> r < next_ref w)"

definition listeners_wf :: "Component \<Rightarrow> bool" where
  "listeners_wf w =
     (distinct (canvas_listeners w) \<and> distinct (document_listeners w)
      \<and> list_all canvas_binding (canvas_listeners w)
      \<and> list_all document_binding (document_listeners w)
      \<and> list_all (\<lambda>l. fst (snd l) < next_ref w) (canvas_listeners w @ document_listeners w)
      \<and> allocated w (renderer w) \<and> allocated w (interactiveCanvas w))"

section \<open>Properties of the user store\<close>

lemma set_enter_truthy:
  "s \<noteq> [] \<Longrightarrow> set_enter (Some s) st =
     (st\<lparr>flag := True\<rparr>, [WriteFlag True, CallGetUserName s], AwaitUserName s)"
  by (simp add: set_enter_def)

text \<open>
  Claim C3, as the code has it. For a non-empty id whose two lookups resolve, \<open>set(id)\<close>
  first sets the flag, then requests the name for the id, then requests the user for
  that name, and only then assigns the user: the effects occur in exactly this order,
  the promise is fulfilled, and the store ends with the flag set and the resolved user.
\<close>

theorem set_sequences_lookups:
  assumes "uid \<noteq> []"
    and "getUserName a uid = Inr name"
    and "getUser a name = Inr u"
  shows "set_action a (Some uid) s =
           (s\<lparr>flag := True, user := Some u\<rparr>,
            [WriteFlag True, CallGetUserName uid, CallGetUser name, WriteUser (Some u)],
            Fulfilled)"
  using assms
  by (simp add: set_action_def set_enter_truthy set_resume_name_def set_resume_user_def)

theorem set_sequences_lookups_witness:
  "set_action \<lparr>getUserName = (\<lambda>i. Inr (i @ ''-name'') :: unit + string),
               getUser = (\<lambda>n. Inr (length n))\<rparr> (Some ''42'') \<lparr>flag = False, user = Some 0\<rparr> =
     (\<lparr>flag = True, user = Some 7\<rparr>,
      [WriteFlag True, CallGetUserName ''42'', CallGetUser ''42-name'', WriteUser (Some 7)],
      Fulfilled)"
  using set_sequences_lookups
    [of "''42''" "\<lparr>getUserName = (\<lambda>i. Inr (i @ ''-name'') :: unit + string),
                     getUser = (\<lambda>n. Inr (length n))\<rparr>" "''42-name''" "7::nat"
        "\<lparr>flag = False, user = Some 0\<rparr>"]
  by simp

text \<open>
  The empty string is an id that is supplied, and for it none of this happens: no
  lookup is made, the flag is cleared and the stored user is dropped, although both
  lookups would have resolved.
\<close>

theorem set_empty_id_makes_no_lookup:
  "set_action \<lparr>getUserName = (\<lambda>i. Inr ''ann'' :: unit + string), getUser = (\<lambda>n. Inr (7::nat))\<rparr>
     (Some []) \<lparr>flag = True, user = Some 3\<rparr> =
   (\<lparr>flag = False, user = None\<rparr>, [WriteFlag False, WriteUser None], Fulfilled)"
  by (simp add: set_action_def set_enter_def)

text \<open>
  Claim C4. \<open>set()\<close> with no id sets the flag to false and the user to null, whatever
  the store held before.
\<close>

theorem set_without_id_resets:
  "set_action a None s = (\<lparr>flag = False, user = None\<rparr>, [WriteFlag False, WriteUser None], Fulfilled)"
  by (simp add: set_action_def set_enter_def)



text \<open>
  Claim C9. \<open>set("")\<close> is \<open>set()\<close>: the same store, the same effects (two writes, no
  request to the client) and the same settlement, because the branch tests the
  truthiness of the id.
\<close>

theorem set_empty_string_is_reset:
  "set_action a (Some []) s = set_action a None s
   \<and> fst (set_action a (Some []) s) = \<lparr>flag = False, user = None\<rparr>
   \<and> filter is_call (fst (snd (set_action a (Some []) s))) = []"
  by (simp add: set_action_def set_enter_def)

section \<open>Properties of the camera controller\<close>

subsection \<open>Range of the doubles\<close>

lemma MAX_VALUE_ge: "2 ^ 1023 \<le> MAX_VALUE"
proof -
  have "(1::real) \<le> 2 - 1 / 2 ^ 52" by simp
  then have "1 * (2::real) ^ 1023 \<le> (2 - 1 / 2 ^ 52) * 2 ^ 1023"
    by (rule mult_right_mono) simp
  then show ?thesis by (simp add: MAX_VALUE_def)
qed

lemma MAX_VALUE_lt: "MAX_VALUE < 2 ^ 1024"
proof -
  have "(2 - 1 / 2 ^ 52) * (2::real) ^ 1023 < 2 * 2 ^ 1023"
    by (rule mult_strict_right_mono) simp_all
  then show ?thesis by (simp add: MAX_VALUE_def)
qed

lemma small_in_range: "\<bar>r\<bar> \<le> 1000000000 \<Longrightarrow> in_range r"
proof -
  assume "\<bar>r\<bar> \<le> 1000000000"
  moreover have "(1000000000::real) \<le> 2 ^ 30" by simp
  moreover have "(2::real) ^ 30 \<le> 2 ^ 1023" by (rule power_increasing) simp_all
  ultimately show ?thesis using MAX_VALUE_ge by (simp add: in_range_def)
qed

lemma overflow_in_range: "in_range r \<Longrightarrow> overflow r = Fin r"
  by (auto simp: overflow_def in_range_def)

lemma overflow_small: "\<bar>r\<bar> \<le> 1000000000 \<Longrightarrow> overflow r = Fin r"
  by (rule overflow_in_range) (rule small_in_range)

lemma overflow_not_NaN: "overflow r \<noteq> NaN"
  by (simp add: overflow_def)

lemma in_range_div_100: "in_range r \<Longrightarrow> in_range (r / 100)"
  unfolding in_range_def by (simp add: abs_divide) 

subsection \<open>Remainder and clamps\<close>










text \<open>
  \<open>maxViewDist\<close> is the squared diagonal of the bounding box, as long as the squares
  and their sums do not overflow.
\<close>

lemma maxViewDist_new:
  assumes "in_range (sx\<^sup>2)" "in_range (sy\<^sup>2)" "in_range (sz\<^sup>2)"
    and "in_range (sx\<^sup>2 + sy\<^sup>2)" "in_range (sx\<^sup>2 + sy\<^sup>2 + sz\<^sup>2)"
  shows "maxViewDist (new_InteractiveCanvas (sx, sy, sz)) = Fin (sx\<^sup>2 + sy\<^sup>2 + sz\<^sup>2)"
proof -
  have "0 \<le> sx\<^sup>2 + sy\<^sup>2 + sz\<^sup>2" by simp
  then show ?thesis
    using assms by (simp add: overflow_in_range not_less del: sum_power2_ge_zero)
qed

text \<open>A structure of size \<open>(3, 4, 0)\<close>: diagonal \<open>5\<close>, \<open>maxViewDist = 25\<close>.\<close>

lemma new_3_4_0:
  "new_InteractiveCanvas (3, 4, 0) =
     \<lparr>xRot = Fin 0.5, yRot = Fin 0.5, dragPos = None, pinchStartDist = None,
      pinchStartViewDist = None, size3 = (3, 4, 0), center = (Fin 1.5, Fin 2, Fin 0),
      viewDist = Fin 5, maxViewDist = Fin 25\<rparr>"
  by (simp add: overflow_small)



text \<open>
  The three conditions are needed. A wheel event brings \<open>viewDist\<close> to \<open>0\<close>, a pinch
  captures it, and a move with both fingers on one point divides \<open>0\<close> by \<open>0\<close>.
\<close>

lemma viewDist_NaN_reachable:
  "viewDist (run (new_InteractiveCanvas (3, 4, 0))
      [Event (Wheel \<lparr>deltaY = - 500\<rparr>),
       Event (TouchStart [(0, 0), (10, 0)]),
       Event (TouchMove [(5, 5), (5, 5)]),
       Frame]) = NaN"
  by (simp add: run_def renderImmediately_def Let_def handleWheel_def hypot_def js_sub_def
      overflow_small)

text \<open>
  A drag between two points whose coordinates are \<open>-a\<close> and \<open>a\<close>, with \<open>a + a\<close> beyond
  the largest double (\<open>a = 1.5e308\<close> is such a coordinate), makes both angles infinite;
  the frame then turns \<open>yRot\<close> into \<open>NaN\<close>, and a move back before the frame turns
  \<open>xRot\<close> into \<open>NaN\<close>.
\<close>

lemma MAX_VALUE_pos: "0 < MAX_VALUE"
  using MAX_VALUE_ge by (rule less_le_trans[rotated]) simp

lemma largest_coordinates_overflow: "MAX_VALUE < 15 * 10 ^ 307 + 15 * 10 ^ 307"
  using MAX_VALUE_lt by simp

lemma drag_overflow_reaches_NaN:
  assumes "MAX_VALUE < a + a"
  shows "xRot (run (new_InteractiveCanvas (3, 4, 0))
      [Event (MouseDown \<lparr>button = 0, clientX = - a, clientY = - a\<rparr>),
       Event (MouseMove \<lparr>button = 0, clientX = a, clientY = a\<rparr>),
       Event (MouseMove \<lparr>button = 0, clientX = - a, clientY = - a\<rparr>),
       Frame]) = NaN
   \<and> yRot (run (new_InteractiveCanvas (3, 4, 0))
      [Event (MouseDown \<lparr>button = 0, clientX = - a, clientY = - a\<rparr>),
       Event (MouseMove \<lparr>button = 0, clientX = a, clientY = a\<rparr>),
       Frame]) = NaN"
proof -
  have up: "overflow (a + a) = PosInf"
    using assms by (simp only: overflow_def if_True)
  have "- a - a < - MAX_VALUE" and "\<not> MAX_VALUE < - a - a"
    using assms MAX_VALUE_pos by linarith+
  then have down: "overflow (- a - a) = NegInf"
    by (simp only: overflow_def if_True if_False)
  show ?thesis
    using up down
    by (simp add: run_def renderImmediately_def Let_def handleMouseDown_def handleMouseMove_def
        js_sub_def new_3_4_0 del: new_InteractiveCanvas.simps)
qed


subsection \<open>Drag\<close>

text \<open>
  Claim C5. A mouse press with the primary button, and the start of a single-finger
  touch, set the drag anchor to the pointer position. With the anchor at \<open>(ax, ay)\<close>, a
  mouse move or a single-finger touch move to \<open>(x, y)\<close> adds \<open>(x - ax) / 100\<close> to \<open>yRot\<close>
  and \<open>(y - ay) / 100\<close> to \<open>xRot\<close> (no clamping or wrapping happens in the handler), moves
  the anchor to \<open>(x, y)\<close> and requests a redraw. The sums are JavaScript's; where the
  angles are finite and nothing overflows they are the real sums.
\<close>

theorem drag_rotates_by_hundredth:
  "dragPos (handleMouseDown \<lparr>button = 0, clientX = ax, clientY = ay\<rparr> s) = Some (ax, ay)
   \<and> dragPos (handleTouchStart [(ax, ay)] s) = Some (ax, ay)
   \<and> (dragPos s = Some (ax, ay) \<longrightarrow>
        handleMouseMove \<lparr>button = b, clientX = x, clientY = y\<rparr> s =
          (s\<lparr>yRot := js_add (yRot s) (js_div (js_sub (Fin x) (Fin ax)) (Fin 100)),
             xRot := js_add (xRot s) (js_div (js_sub (Fin y) (Fin ay)) (Fin 100)),
             dragPos := Some (x, y)\<rparr>, True)
      \<and> handleTouchMove [(x, y)] s =
          (s\<lparr>yRot := js_add (yRot s) (js_div (js_sub (Fin x) (Fin ax)) (Fin 100)),
             xRot := js_add (xRot s) (js_div (js_sub (Fin y) (Fin ay)) (Fin 100)),
             dragPos := Some (x, y)\<rparr>, True)
      \<and> (\<forall>y0 x0. yRot s = Fin y0 \<and> xRot s = Fin x0
             \<and> in_range (x - ax) \<and> in_range (y - ay)
             \<and> in_range (y0 + (x - ax) / 100) \<and> in_range (x0 + (y - ay) / 100) \<longrightarrow>
           handleMouseMove \<lparr>button = b, clientX = x, clientY = y\<rparr> s =
             (s\<lparr>yRot := Fin (y0 + (x - ax) / 100), xRot := Fin (x0 + (y - ay) / 100),
                dragPos := Some (x, y)\<rparr>, True)
         \<and> handleTouchMove [(x, y)] s =
             (s\<lparr>yRot := Fin (y0 + (x - ax) / 100), xRot := Fin (x0 + (y - ay) / 100),
                dragPos := Some (x, y)\<rparr>, True)))"
  by (auto simp: handleMouseDown_def handleMouseMove_def js_sub_def overflow_in_range
      in_range_div_100)

theorem drag_rotates_by_hundredth_witness:
  "handleMouseMove \<lparr>button = 0, clientX = 110, clientY = 70\<rparr>
     (handleMouseDown \<lparr>button = 0, clientX = 10, clientY = 20\<rparr> (new_InteractiveCanvas (3, 4, 0))) =
   ((new_InteractiveCanvas (3, 4, 0))\<lparr>yRot := Fin 1.5, xRot := Fin 1, dragPos := Some (110, 70)\<rparr>, True)
   \<and> handleTouchMove [(110, 70)]
     (handleTouchStart [(10, 20)] (new_InteractiveCanvas (3, 4, 0))) =
   ((new_InteractiveCanvas (3, 4, 0))\<lparr>yRot := Fin 1.5, xRot := Fin 1, dragPos := Some (110, 70)\<rparr>, True)"
proof -
  define s1 where "s1 = handleMouseDown \<lparr>button = 0, clientX = 10, clientY = 20\<rparr>
                          (new_InteractiveCanvas (3, 4, 0))"
  define s2 where "s2 = handleTouchStart [(10, 20)] (new_InteractiveCanvas (3, 4, 0))"
  have a1: "dragPos s1 = Some (10, 20)" "yRot s1 = Fin 0.5" "xRot s1 = Fin 0.5"
    and a2: "dragPos s2 = Some (10, 20)" "yRot s2 = Fin 0.5" "xRot s2 = Fin 0.5"
    unfolding s1_def s2_def
    by (simp_all add: handleMouseDown_def new_3_4_0 del: new_InteractiveCanvas.simps)
  have r: "in_range (110 - 10)" "in_range (70 - 20)" "in_range (0.5 + (110 - 10) / 100)"
    "in_range (0.5 + (70 - 20) / 100)"
    by (rule small_in_range, simp)+
  have m: "handleMouseMove \<lparr>button = 0, clientX = 110, clientY = 70\<rparr> s1 =
             (s1\<lparr>yRot := Fin (0.5 + (110 - 10) / 100), xRot := Fin (0.5 + (70 - 20) / 100),
                dragPos := Some (110, 70)\<rparr>, True)"
    using drag_rotates_by_hundredth[of 10 20 s1 0 110 70] a1 r by blast
  have t: "handleTouchMove [(110, 70)] s2 =
             (s2\<lparr>yRot := Fin (0.5 + (110 - 10) / 100), xRot := Fin (0.5 + (70 - 20) / 100),
                dragPos := Some (110, 70)\<rparr>, True)"
    using drag_rotates_by_hundredth[of 10 20 s2 0 110 70] a2 r by blast
  show ?thesis
    unfolding s1_def[symmetric] s2_def[symmetric] m t
    by (simp add: s1_def s2_def handleMouseDown_def new_3_4_0 del: new_InteractiveCanvas.simps)
qed


subsection \<open>Pinch\<close>

lemma pinch_anchor_handleTouchMove:
  "pinchStartDist (fst (handleTouchMove ts s)) = pinchStartDist s
   \<and> pinchStartViewDist (fst (handleTouchMove ts s)) = pinchStartViewDist s"
  by (cases "(ts, s)" rule: handleTouchMove.cases) (auto simp: Let_def split: option.splits)

lemma pinch_anchor_step:
  assumes "pinchStartDist s = Some d" "pinchStartViewDist s = Some v" "pinch_step e"
  shows "pinchStartDist (step s e) = Some d \<and> pinchStartViewDist (step s e) = Some v"
proof (cases e)
  case Frame
  then show ?thesis using assms by (simp add: renderImmediately_def Let_def)
next
  case (Event ev)
  then show ?thesis
    using assms pinch_anchor_handleTouchMove[of _ s]
    by (cases ev)
       (auto simp: handleMouseDown_def handleMouseMove_def handleMouseUp_def handleWheel_def
          split: option.splits)
qed

lemma pinch_anchor_run:
  assumes "pinchStartDist s = Some d" "pinchStartViewDist s = Some v" "list_all pinch_step ms"
  shows "pinchStartDist (run s ms) = Some d \<and> pinchStartViewDist (run s ms) = Some v"
  using assms unfolding run_def
proof (induction ms arbitrary: s)
  case Nil
  then show ?case by simp
next
  case (Cons m ms)
  from Cons.prems have "pinchStartDist (step s m) = Some d \<and> pinchStartViewDist (step s m) = Some v"
    using pinch_anchor_step[of s d v m] by simp
  with Cons show ?case by simp
qed

lemma js_hypot_in_range:
  assumes "in_range (a - b)" "in_range (c - d)" "in_range (hypot (a - b) (c - d))"
  shows "js_hypot (js_sub (Fin a) (Fin b)) (js_sub (Fin c) (Fin d)) = Fin (hypot (a - b) (c - d))"
  using assms by (simp add: js_sub_def overflow_in_range)

text \<open>
  Claim C6. A two-finger gesture starts in state \<open>s\<close> with a finger separation \<open>d\<close> that
  is not zero. Whatever events and animation frames follow, short of a new touch start
  or a touch end, a two-finger move with separation \<open>c\<close> sets \<open>viewDist\<close> to the
  \<open>viewDist\<close> of \<open>s\<close> divided by \<open>r = c / d\<close>. The quotients are JavaScript's; for a
  finite captured distance \<open>v\<close>, \<open>c \<noteq> 0\<close> and no overflow the result is the real
  quotient \<open>v / r\<close>.
\<close>

theorem pinch_scales_captured_viewDist:
  assumes "truthy (js_hypot (js_sub (Fin (fst t2)) (Fin (fst t1)))
                            (js_sub (Fin (snd t2)) (Fin (snd t1))))"
    and "list_all pinch_step ms"
  shows "viewDist (fst (handleTouchMove [u1, u2] (run (handleTouchStart [t1, t2] s) ms))) =
           js_div (viewDist s)
             (js_div (js_hypot (js_sub (Fin (fst u2)) (Fin (fst u1)))
                               (js_sub (Fin (snd u2)) (Fin (snd u1))))
                     (js_hypot (js_sub (Fin (fst t2)) (Fin (fst t1)))
                               (js_sub (Fin (snd t2)) (Fin (snd t1)))))
       \<and> (\<forall>v. viewDist s = Fin v
              \<and> in_range (fst t2 - fst t1) \<and> in_range (snd t2 - snd t1)
              \<and> in_range (fst u2 - fst u1) \<and> in_range (snd u2 - snd u1)
              \<and> in_range (hypot (fst t2 - fst t1) (snd t2 - snd t1))
              \<and> in_range (hypot (fst u2 - fst u1) (snd u2 - snd u1))
              \<and> hypot (fst u2 - fst u1) (snd u2 - snd u1) \<noteq> 0
              \<and> in_range (hypot (fst u2 - fst u1) (snd u2 - snd u1)
                           / hypot (fst t2 - fst t1) (snd t2 - snd t1))
              \<and> in_range (v / (hypot (fst u2 - fst u1) (snd u2 - snd u1)
                                / hypot (fst t2 - fst t1) (snd t2 - snd t1))) \<longrightarrow>
            viewDist (fst (handleTouchMove [u1, u2] (run (handleTouchStart [t1, t2] s) ms))) =
              Fin (v / (hypot (fst u2 - fst u1) (snd u2 - snd u1)
                        / hypot (fst t2 - fst t1) (snd t2 - snd t1))))"
proof -
  define d where "d = js_hypot (js_sub (Fin (fst t2)) (Fin (fst t1)))
                               (js_sub (Fin (snd t2)) (Fin (snd t1)))"
  define c where "c = js_hypot (js_sub (Fin (fst u2)) (Fin (fst u1)))
                               (js_sub (Fin (snd u2)) (Fin (snd u1)))"
  define s1 where "s1 = run (handleTouchStart [t1, t2] s) ms"
  have "pinchStartDist (handleTouchStart [t1, t2] s) = Some d"
    and "pinchStartViewDist (handleTouchStart [t1, t2] s) = Some (viewDist s)"
    by (simp_all add: d_def)
  then have a: "pinchStartDist s1 = Some d \<and> pinchStartViewDist s1 = Some (viewDist s)"
    unfolding s1_def using pinch_anchor_run assms(2) by blast
  have t: "truthy d" using assms(1) by (simp add: d_def)
  with a have main: "viewDist (fst (handleTouchMove [u1, u2] s1)) = js_div (viewDist s) (js_div c d)"
    by (simp add: Let_def c_def)
  have fin: "viewDist (fst (handleTouchMove [u1, u2] s1)) =
              Fin (v / (hypot (fst u2 - fst u1) (snd u2 - snd u1)
                        / hypot (fst t2 - fst t1) (snd t2 - snd t1)))"
    if v: "viewDist s = Fin v"
      and r: "in_range (fst t2 - fst t1)" "in_range (snd t2 - snd t1)"
        "in_range (fst u2 - fst u1)" "in_range (snd u2 - snd u1)"
        "in_range (hypot (fst t2 - fst t1) (snd t2 - snd t1))"
        "in_range (hypot (fst u2 - fst u1) (snd u2 - snd u1))"
      and nz: "hypot (fst u2 - fst u1) (snd u2 - snd u1) \<noteq> 0"
      and q: "in_range (hypot (fst u2 - fst u1) (snd u2 - snd u1)
                           / hypot (fst t2 - fst t1) (snd t2 - snd t1))"
        "in_range (v / (hypot (fst u2 - fst u1) (snd u2 - snd u1)
                                / hypot (fst t2 - fst t1) (snd t2 - snd t1)))"
    for v
  proof -
    have d': "d = Fin (hypot (fst t2 - fst t1) (snd t2 - snd t1))"
      unfolding d_def using r by (simp add: js_hypot_in_range)
    have c': "c = Fin (hypot (fst u2 - fst u1) (snd u2 - snd u1))"
      unfolding c_def using r by (simp add: js_hypot_in_range)
    have dz: "hypot (fst t2 - fst t1) (snd t2 - snd t1) \<noteq> 0"
      using t d' by simp
    show ?thesis
      unfolding main d' c' v using dz nz q by (simp add: overflow_in_range)
  qed
  show ?thesis
    using main fin unfolding s1_def[symmetric] d_def[symmetric] c_def[symmetric] by blast
qed

theorem pinch_scales_captured_viewDist_witness:
  "truthy (js_hypot (js_sub (Fin 6) (Fin 0)) (js_sub (Fin 8) (Fin 0)))
   \<and> viewDist (fst (handleTouchMove [(0, 0), (3, 4)]
      (run (handleTouchStart [(0, 0), (6, 8)] (new_InteractiveCanvas (3, 4, 0)))
         [Event (TouchMove [(0, 0), (12, 16)]), Frame, Event (Wheel \<lparr>deltaY = 300\<rparr>)]))) = Fin 10"
proof -
  define t1 t2 u1 u2 :: Touch where "t1 = (0, 0)" and "t2 = (6, 8)" and "u1 = (0, 0)" and "u2 = (3, 4)"
  have h: "truthy (js_hypot (js_sub (Fin (fst t2)) (Fin (fst t1)))
                            (js_sub (Fin (snd t2)) (Fin (snd t1))))"
    by (simp add: t1_def t2_def js_sub_def hypot_def overflow_small)
  have l: "list_all pinch_step
             [Event (TouchMove [(0, 0), (12, 16)]), Frame, Event (Wheel \<lparr>deltaY = 300\<rparr>)]"
    by simp
  have "viewDist (fst (handleTouchMove [u1, u2]
      (run (handleTouchStart [t1, t2] (new_InteractiveCanvas (3, 4, 0)))
         [Event (TouchMove [(0, 0), (12, 16)]), Frame, Event (Wheel \<lparr>deltaY = 300\<rparr>)]))) =
        js_div (viewDist (new_InteractiveCanvas (3, 4, 0)))
             (js_div (js_hypot (js_sub (Fin (fst u2)) (Fin (fst u1)))
                               (js_sub (Fin (snd u2)) (Fin (snd u1))))
                     (js_hypot (js_sub (Fin (fst t2)) (Fin (fst t1)))
                               (js_sub (Fin (snd t2)) (Fin (snd t1)))))"
    using pinch_scales_captured_viewDist[OF h l, of u1 u2 "new_InteractiveCanvas (3, 4, 0)"]
    by blast
  also have "\<dots> = Fin 10"
    by (simp add: t1_def t2_def u1_def u2_def js_sub_def hypot_def overflow_small new_3_4_0
        del: new_InteractiveCanvas.simps)
  finally have "viewDist (fst (handleTouchMove [u1, u2]
      (run (handleTouchStart [t1, t2] (new_InteractiveCanvas (3, 4, 0)))
         [Event (TouchMove [(0, 0), (12, 16)]), Frame, Event (Wheel \<lparr>deltaY = 300\<rparr>)]))) = Fin 10" .
  then show ?thesis
    using h unfolding t1_def t2_def u1_def u2_def by simp
qed

text \<open>Two touches at one position are at separation \<open>0\<close>.\<close>

lemma zero_separation: "js_hypot (js_sub (Fin a) (Fin a)) (js_sub (Fin b) (Fin b)) = Fin 0"
  by (simp add: js_sub_def hypot_def overflow_small)

lemma zero_pinchStartDist_ignores_move:
  assumes "pinchStartDist s = Some (Fin 0)"
  shows "handleTouchMove [a, b] s = (s, False)"
  using assms by (simp split: option.splits)

text \<open>
  Claim C10. A two-finger gesture that starts with both touches at the same position
  records the separation \<open>0\<close>. In every state with that record a two-finger move takes
  neither branch of the handler: the state is returned as it was and no redraw is
  requested, so the quotient by the recorded separation is never formed and the move
  leaves \<open>viewDist\<close> alone. The record stays \<open>0\<close> through whatever events and animation
  frames follow the start, short of a new touch start or a touch end, so every
  two-finger move of the gesture is ignored; a gesture of such moves alone ends in the
  state in which it started.
\<close>

theorem coincident_pinch_start_ignores_moves:
  "pinchStartDist (handleTouchStart [p, p] s) = Some (Fin 0)
   \<and> (\<forall>s'. pinchStartDist s' = Some (Fin 0) \<longrightarrow> handleTouchMove [a, b] s' = (s', False))
   \<and> (list_all pinch_step ms \<longrightarrow>
        pinchStartDist (run (handleTouchStart [p, p] s) ms) = Some (Fin 0)
        \<and> handleTouchMove [a, b] (run (handleTouchStart [p, p] s) ms) =
            (run (handleTouchStart [p, p] s) ms, False)
        \<and> viewDist (fst (handleTouchMove [a, b] (run (handleTouchStart [p, p] s) ms))) =
            viewDist (run (handleTouchStart [p, p] s) ms))
   \<and> run (handleTouchStart [p, p] s) (map (\<lambda>(a, b). Event (TouchMove [a, b])) ts) =
       handleTouchStart [p, p] s
   \<and> viewDist (run (handleTouchStart [p, p] s) (map (\<lambda>(a, b). Event (TouchMove [a, b])) ts)) =
       viewDist s"
proof -
  have start: "pinchStartDist (handleTouchStart [p, p] s) = Some (Fin 0)"
    and v0: "pinchStartViewDist (handleTouchStart [p, p] s) = Some (viewDist s)"
    and vd: "viewDist (handleTouchStart [p, p] s) = viewDist s"
    by (simp_all add: zero_separation)
  have one: "\<And>s' a b. pinchStartDist s' = Some (Fin 0) \<Longrightarrow> handleTouchMove [a, b] s' = (s', False)"
    by (rule zero_pinchStartDist_ignores_move)
  have later: "pinchStartDist (run (handleTouchStart [p, p] s) ms) = Some (Fin 0)"
    if "list_all pinch_step ms"
    using pinch_anchor_run[OF start v0 that] by simp
  have all: "run (handleTouchStart [p, p] s) (map (\<lambda>(a, b). Event (TouchMove [a, b])) ts) =
       handleTouchStart [p, p] s"
    unfolding run_def
  proof (induction ts)
    case Nil
    show ?case by simp
  next
    case (Cons m ts)
    obtain a b where m: "m = (a, b)" by (cases m)
    show ?case
      using Cons one[OF start, of a b]
      by (simp add: m del: handleTouchMove.simps handleTouchStart.simps)
  qed
  show ?thesis
    using start one later all vd by simp
qed

theorem coincident_pinch_start_ignores_moves_witness:
  "list_all pinch_step [Event (Wheel \<lparr>deltaY = 100\<rparr>)]
   \<and> viewDist (run (handleTouchStart [(7, 7), (7, 7)] (new_InteractiveCanvas (3, 4, 0)))
        [Event (Wheel \<lparr>deltaY = 100\<rparr>)]) = Fin 6
   \<and> handleTouchMove [(0, 0), (30, 40)]
        (run (handleTouchStart [(7, 7), (7, 7)] (new_InteractiveCanvas (3, 4, 0)))
           [Event (Wheel \<lparr>deltaY = 100\<rparr>)]) =
      (run (handleTouchStart [(7, 7), (7, 7)] (new_InteractiveCanvas (3, 4, 0)))
           [Event (Wheel \<lparr>deltaY = 100\<rparr>)], False)"
proof -
  have l: "list_all pinch_step [Event (Wheel \<lparr>deltaY = 100\<rparr>)]"
    by simp
  have m: "handleTouchMove [(0, 0), (30, 40)]
        (run (handleTouchStart [(7, 7), (7, 7)] (new_InteractiveCanvas (3, 4, 0)))
           [Event (Wheel \<lparr>deltaY = 100\<rparr>)]) =
      (run (handleTouchStart [(7, 7), (7, 7)] (new_InteractiveCanvas (3, 4, 0)))
           [Event (Wheel \<lparr>deltaY = 100\<rparr>)], False)"
    using coincident_pinch_start_ignores_moves
      [of "(7, 7)" "new_InteractiveCanvas (3, 4, 0)" "(0, 0)" "(30, 40)"
          "[Event (Wheel \<lparr>deltaY = 100\<rparr>)]"] l
    by blast
  have v: "viewDist (run (handleTouchStart [(7, 7), (7, 7)] (new_InteractiveCanvas (3, 4, 0)))
        [Event (Wheel \<lparr>deltaY = 100\<rparr>)]) = Fin 6"
    by (simp add: run_def handleWheel_def overflow_small new_3_4_0
        del: new_InteractiveCanvas.simps handleTouchStart.simps)
       (simp add: new_3_4_0 overflow_small del: new_InteractiveCanvas.simps)
  show ?thesis
    using l m v by blast
qed

section \<open>Properties of the viewport component\<close>

subsection \<open>Listener lists\<close>

lemma distinct_addEventListener: "distinct ls \<Longrightarrow> distinct (addEventListener l ls)"
  by (simp add: addEventListener_def)

lemma set_addEventListener: "set (addEventListener l ls) = insert l (set ls)"
  by (auto simp: addEventListener_def)

lemma distinct_removeEventListener: "distinct ls \<Longrightarrow> distinct (removeEventListener l ls)"
  by (simp add: removeEventListener_def)

lemma set_removeEventListener:
  "distinct ls \<Longrightarrow> set (removeEventListener l ls) = set ls - {l}"
  by (simp add: removeEventListener_def)

lemma listeners_wf_iff:
  "listeners_wf w \<longleftrightarrow>
     distinct (canvas_listeners w) \<and> distinct (document_listeners w)
     \<and> (\<forall>l \<in> set (canvas_listeners w). canvas_binding l \<and> fst (snd l) < next_ref w)
     \<and> (\<forall>l \<in> set (document_listeners w). document_binding l \<and> fst (snd l) < next_ref w)
     \<and> allocated w (renderer w) \<and> allocated w (interactiveCanvas w)"
  by (auto simp: listeners_wf_def list_all_iff)

lemma allocated_alt: "allocated w x = (\<forall>r. x = Some r \<longrightarrow> r < next_ref w)"
  by (cases x) (simp_all add: allocated_def)

lemma allocated_cong:
  "next_ref w' = next_ref w \<Longrightarrow> allocated w' x = allocated w x"
  by (simp add: allocated_def split: option.splits)

lemma allocated_mono:
  "allocated w x \<Longrightarrow> next_ref w \<le> next_ref w' \<Longrightarrow> allocated w' x"
  by (auto simp: allocated_def split: option.splits)

lemma destroy_fields:
  "next_ref (destroy r w) = next_ref w"
  "renderer (destroy r w) = renderer w"
  "interactiveCanvas (destroy r w) = interactiveCanvas w"
  "instances (destroy r w) = instances w"
  "frames (destroy r w) = frames w"
  "canvas (destroy r w) = canvas w"
  by (simp_all add: destroy_def Let_def)

lemma destroy_canvas_listeners:
  "distinct (canvas_listeners w) \<Longrightarrow>
   distinct (canvas_listeners (destroy r w))
   \<and> set (canvas_listeners (destroy r w)) =
       set (canvas_listeners w) -
         {(''mousedown'', r, HandleMouseDown), (''wheel'', r, HandleWheel),
          (''touchstart'', r, HandleTouchStart), (''touchmove'', r, HandleTouchMove),
          (''touchend'', r, HandleTouchEnd)}"
  by (auto simp: destroy_def Let_def distinct_removeEventListener set_removeEventListener)

lemma destroy_document_listeners:
  "distinct (document_listeners w) \<Longrightarrow>
   distinct (document_listeners (destroy r w))
   \<and> set (document_listeners (destroy r w)) =
       set (document_listeners w) -
         {(''mousemove'', r, HandleMouseMove), (''mouseup'', r, HandleMouseUp)}"
  by (auto simp: destroy_def Let_def distinct_removeEventListener set_removeEventListener)

lemma listeners_wf_destroy:
  assumes "listeners_wf w"
  shows "listeners_wf (destroy r w)"
  using assms destroy_canvas_listeners[of w r] destroy_document_listeners[of w r]
  by (simp add: listeners_wf_iff destroy_fields allocated_cong[of "destroy r w" w])

lemma construct_fields:
  "fst (construct_InteractiveCanvas sz w) = next_ref w"
  "next_ref (snd (construct_InteractiveCanvas sz w)) = Suc (next_ref w)"
  "renderer (snd (construct_InteractiveCanvas sz w)) = renderer w"
  "interactiveCanvas (snd (construct_InteractiveCanvas sz w)) = interactiveCanvas w"
  "instances (snd (construct_InteractiveCanvas sz w)) =
     (instances w)(next_ref w \<mapsto> new_InteractiveCanvas sz)"
  "frames (snd (construct_InteractiveCanvas sz w)) = frames w"
  "canvas (snd (construct_InteractiveCanvas sz w)) = canvas w"
  by (simp_all add: construct_InteractiveCanvas_def Let_def)

lemma construct_listeners:
  "set (canvas_listeners (snd (construct_InteractiveCanvas sz w))) =
     set (canvas_listeners w) \<union>
       {(''mousedown'', next_ref w, HandleMouseDown), (''wheel'', next_ref w, HandleWheel),
        (''touchstart'', next_ref w, HandleTouchStart), (''touchmove'', next_ref w, HandleTouchMove),
        (''touchend'', next_ref w, HandleTouchEnd)}"
  "set (document_listeners (snd (construct_InteractiveCanvas sz w))) =
     set (document_listeners w) \<union>
       {(''mousemove'', next_ref w, HandleMouseMove), (''mouseup'', next_ref w, HandleMouseUp)}"
  "distinct (canvas_listeners w) \<Longrightarrow>
     distinct (canvas_listeners (snd (construct_InteractiveCanvas sz w)))"
  "distinct (document_listeners w) \<Longrightarrow>
     distinct (document_listeners (snd (construct_InteractiveCanvas sz w)))"
  by (auto simp: construct_InteractiveCanvas_def Let_def set_addEventListener
      distinct_addEventListener)

lemma listeners_wf_construct:
  assumes "listeners_wf w"
  shows "listeners_wf (snd (construct_InteractiveCanvas sz w))"
proof -
  let ?w = "snd (construct_InteractiveCanvas sz w)"
  have a: "allocated ?w (renderer ?w)" "allocated ?w (interactiveCanvas ?w)"
    using assms by (auto simp: listeners_wf_iff construct_fields intro: allocated_mono)
  show ?thesis
    using assms a by (auto simp: listeners_wf_iff construct_fields construct_listeners)
qed

lemma listeners_wf_fields:
  assumes "listeners_wf w"
    and "canvas_listeners w' = canvas_listeners w"
    and "document_listeners w' = document_listeners w"
    and "next_ref w' = next_ref w"
    and "renderer w' = renderer w"
    and "interactiveCanvas w' = interactiveCanvas w"
  shows "listeners_wf w'"
  using assms by (simp add: listeners_wf_def allocated_cong[of w' w])

lemma onRender_fields:
  "canvas_listeners (onRender v w) = canvas_listeners w"
  "document_listeners (onRender v w) = document_listeners w"
  "next_ref (onRender v w) = next_ref w"
  "renderer (onRender v w) = renderer w"
  "interactiveCanvas (onRender v w) = interactiveCanvas w"
  "instances (onRender v w) = instances w"
  "frames (onRender v w) = frames w"
  by (simp_all add: onRender_def Let_def split: option.splits)

lemma invoke_fields:
  "canvas_listeners (invoke e w l) = canvas_listeners w"
  "document_listeners (invoke e w l) = document_listeners w"
  "next_ref (invoke e w l) = next_ref w"
  "renderer (invoke e w l) = renderer w"
  "interactiveCanvas (invoke e w l) = interactiveCanvas w"
  by (simp_all add: invoke_def ic_redraw_def Let_def split: prod.splits option.splits)

lemma foldl_preserves:
  assumes "\<And>w l. f (g w l) = f w"
  shows "f (foldl g w ls) = f w"
  by (induction ls arbitrary: w) (simp_all add: assms)

lemma foldl_invoke_fields:
  "canvas_listeners (foldl (invoke e) w ls) = canvas_listeners w"
  "document_listeners (foldl (invoke e) w ls) = document_listeners w"
  "next_ref (foldl (invoke e) w ls) = next_ref w"
  "renderer (foldl (invoke e) w ls) = renderer w"
  "interactiveCanvas (foldl (invoke e) w ls) = interactiveCanvas w"
  by (rule foldl_preserves, rule invoke_fields)+

lemma dispatch_fields:
  "canvas_listeners (dispatch tgt e w) = canvas_listeners w"
  "document_listeners (dispatch tgt e w) = document_listeners w"
  "next_ref (dispatch tgt e w) = next_ref w"
  "renderer (dispatch tgt e w) = renderer w"
  "interactiveCanvas (dispatch tgt e w) = interactiveCanvas w"
  by (simp_all add: dispatch_def foldl_invoke_fields)

lemma invoke_other_instance:
  "fst (snd l) \<noteq> r \<Longrightarrow> instances (invoke e w l) r = instances w r"
  by (auto simp: invoke_def ic_redraw_def Let_def split: prod.splits option.splits)

lemma foldl_invoke_other_instances:
  "\<forall>l \<in> set ls. fst (snd l) \<noteq> r \<Longrightarrow> instances (foldl (invoke e) w ls) r = instances w r"
  by (induction ls arbitrary: w) (simp_all add: invoke_other_instance)

lemma dispatch_detached_instance:
  assumes "\<forall>l \<in> set (canvas_listeners w @ document_listeners w). fst (snd l) \<noteq> r"
  shows "instances (dispatch tgt e w) r = instances w r"
  unfolding dispatch_def
  using assms by (intro foldl_invoke_other_instances) (auto split: Target.splits)

lemma canvas_binding_cases:
  "canvas_binding (t, r, h) \<Longrightarrow>
     (t, r, h) \<in> {(''mousedown'', r, HandleMouseDown), (''wheel'', r, HandleWheel),
          (''touchstart'', r, HandleTouchStart), (''touchmove'', r, HandleTouchMove),
          (''touchend'', r, HandleTouchEnd)}"
  by simp

lemma document_binding_cases:
  "document_binding (t, r, h) \<Longrightarrow>
     (t, r, h) \<in> {(''mousemove'', r, HandleMouseMove), (''mouseup'', r, HandleMouseUp)}"
  by simp

lemma destroy_detaches_canvas:
  assumes "listeners_wf w" and "l \<in> set (canvas_listeners (destroy r w))"
  shows "fst (snd l) \<noteq> r"
proof
  assume r: "fst (snd l) = r"
  define S where "S = {(''mousedown'', r, HandleMouseDown), (''wheel'', r, HandleWheel),
          (''touchstart'', r, HandleTouchStart), (''touchmove'', r, HandleTouchMove),
          (''touchend'', r, HandleTouchEnd)}"
  have d: "distinct (canvas_listeners w)" using assms(1) by (simp add: listeners_wf_def)
  have eq: "set (canvas_listeners (destroy r w)) = set (canvas_listeners w) - S"
    unfolding S_def using destroy_canvas_listeners[OF d, of r] by (rule conjunct2)
  have mem: "l \<in> set (canvas_listeners w)" and out: "l \<notin> S"
    using assms(2) unfolding eq by simp_all
  have "canvas_binding l" using assms(1) mem by (simp add: listeners_wf_def list_all_iff)
  then have "canvas_binding (fst l, r, snd (snd l))" using r by (cases l) simp
  then have "(fst l, r, snd (snd l)) \<in> S" unfolding S_def by (rule canvas_binding_cases)
  moreover have "l = (fst l, r, snd (snd l))" using r by (cases l) simp
  ultimately show False using out by simp
qed

lemma destroy_detaches_document:
  assumes "listeners_wf w" and "l \<in> set (document_listeners (destroy r w))"
  shows "fst (snd l) \<noteq> r"
proof
  assume r: "fst (snd l) = r"
  define S where "S = {(''mousemove'', r, HandleMouseMove), (''mouseup'', r, HandleMouseUp)}"
  have d: "distinct (document_listeners w)" using assms(1) by (simp add: listeners_wf_def)
  have eq: "set (document_listeners (destroy r w)) = set (document_listeners w) - S"
    unfolding S_def using destroy_document_listeners[OF d, of r] by (rule conjunct2)
  have mem: "l \<in> set (document_listeners w)" and out: "l \<notin> S"
    using assms(2) unfolding eq by simp_all
  have "document_binding l" using assms(1) mem by (simp add: listeners_wf_def list_all_iff)
  then have "document_binding (fst l, r, snd (snd l))" using r by (cases l) simp
  then have "(fst l, r, snd (snd l)) \<in> S" unfolding S_def by (rule document_binding_cases)
  moreover have "l = (fst l, r, snd (snd l))" using r by (cases l) simp
  ultimately show False using out by simp
qed

lemma destroy_detaches:
  assumes "listeners_wf w"
  shows "\<forall>l \<in> set (canvas_listeners (destroy r w) @ document_listeners (destroy r w)).
           fst (snd l) \<noteq> r"
proof
  fix l
  assume "l \<in> set (canvas_listeners (destroy r w) @ document_listeners (destroy r w))"
  then consider "l \<in> set (canvas_listeners (destroy r w))"
    | "l \<in> set (document_listeners (destroy r w))" by auto
  then show "fst (snd l) \<noteq> r"
    by cases (rule destroy_detaches_canvas[OF assms], assumption,
              rule destroy_detaches_document[OF assms], assumption)
qed


lemma ic_redraw_fields:
  "canvas_listeners (ic_redraw r w) = canvas_listeners w"
  "document_listeners (ic_redraw r w) = document_listeners w"
  "next_ref (ic_redraw r w) = next_ref w"
  "renderer (ic_redraw r w) = renderer w"
  "interactiveCanvas (ic_redraw r w) = interactiveCanvas w"
  "instances (ic_redraw r w) = instances w"
  "frames (ic_redraw r w) = frames w @ [RenderImmediately r]"
  "canvas (ic_redraw r w) = canvas w"
  by (simp_all add: ic_redraw_def)

text \<open>The state in which \<open>redraw\<close> builds: controller destroyed, renderer dropped.\<close>

lemma listeners_wf_cleared:
  assumes "listeners_wf w"
  shows "listeners_wf ((destroy i w)\<lparr>interactiveCanvas := None, renderer := None\<rparr>)"
  using listeners_wf_destroy[OF assms, of i]
  by (simp add: listeners_wf_def allocated_alt)

lemma listeners_wf_alloc_renderer:
  assumes "listeners_wf w"
  shows "listeners_wf (w\<lparr>renderer := Some (next_ref w), next_ref := Suc (next_ref w)\<rparr>)"
  using assms
  by (auto simp: listeners_wf_iff allocated_alt)

lemma listeners_wf_set_controller:
  assumes "listeners_wf w" "i < next_ref w"
  shows "listeners_wf (w\<lparr>interactiveCanvas := Some i\<rparr>)"
  using assms by (simp add: listeners_wf_def allocated_alt)

lemma listeners_wf_drop:
  assumes "listeners_wf w"
  shows "listeners_wf (w\<lparr>interactiveCanvas := None\<rparr>)" "listeners_wf (w\<lparr>renderer := None\<rparr>)"
  using assms by (simp_all add: listeners_wf_def allocated_alt)

lemma redraw_skipped:
  assumes "\<not> (isReady w \<and> resources w \<noteq> None \<and> (\<exists>cv. canvas w = Some cv \<and> webgl cv))"
  shows "redraw w = w"
  using assms by (auto simp: redraw_def split: option.splits)

lemma redraw_unfold:
  assumes "isReady w" "resources w \<noteq> None" "canvas w = Some cv" "webgl cv"
  shows "redraw w =
     (let w1 = (case interactiveCanvas w of
                  Some i \<Rightarrow> (destroy i w)\<lparr>interactiveCanvas := None\<rparr>
                | None \<Rightarrow> w);
          w2 = (case renderer w1 of Some _ \<Rightarrow> w1\<lparr>renderer := None\<rparr> | None \<Rightarrow> w1);
          w3 = w2\<lparr>renderer := Some (next_ref w2), next_ref := Suc (next_ref w2)\<rparr>;
          w4 = snd (construct_InteractiveCanvas (structure_size w2) w3)
      in ic_redraw (next_ref w3) (w4\<lparr>interactiveCanvas := Some (next_ref w3)\<rparr>))"
  using assms
  by (cases "resources w") (simp_all add: redraw_def Let_def case_prod_beta construct_fields)

lemma listeners_wf_redraw:
  assumes "listeners_wf w"
  shows "listeners_wf (redraw w)"
proof (cases "isReady w \<and> resources w \<noteq> None \<and> (\<exists>cv. canvas w = Some cv \<and> webgl cv)")
  case False
  then show ?thesis using assms by (simp add: redraw_skipped)
next
  case True
  then obtain cv where g: "isReady w" "resources w \<noteq> None" "canvas w = Some cv" "webgl cv"
    by blast
  define w1 where "w1 = (case interactiveCanvas w of
                  Some i \<Rightarrow> (destroy i w)\<lparr>interactiveCanvas := None\<rparr>
                | None \<Rightarrow> w)"
  define w2 where "w2 = (case renderer w1 of Some _ \<Rightarrow> w1\<lparr>renderer := None\<rparr> | None \<Rightarrow> w1)"
  define w3 where "w3 = w2\<lparr>renderer := Some (next_ref w2), next_ref := Suc (next_ref w2)\<rparr>"
  define w4 where "w4 = snd (construct_InteractiveCanvas (structure_size w2) w3)"
  define w5 where "w5 = w4\<lparr>interactiveCanvas := Some (next_ref w3)\<rparr>"
  have eq: "redraw w = ic_redraw (next_ref w3) w5"
    unfolding redraw_unfold[OF g] w1_def w2_def w3_def w4_def w5_def Let_def by (rule refl)
  have 1: "listeners_wf w1"
    unfolding w1_def using assms
    by (cases "interactiveCanvas w") (simp_all add: listeners_wf_destroy listeners_wf_drop)
  have 2: "listeners_wf w2"
    unfolding w2_def using 1 by (cases "renderer w1") (simp_all add: listeners_wf_drop)
  have 3: "listeners_wf w3"
    unfolding w3_def using 2 by (rule listeners_wf_alloc_renderer)
  have 4: "listeners_wf w4"
    unfolding w4_def using 3 by (rule listeners_wf_construct)
  have "next_ref w3 < next_ref w4"
    unfolding w4_def by (simp add: construct_fields)
  with 4 have 5: "listeners_wf w5"
    unfolding w5_def by (rule listeners_wf_set_controller)
  show ?thesis
    unfolding eq using 5 by (rule listeners_wf_fields) (simp_all add: ic_redraw_fields)
qed

lemma redraw_built:
  assumes "isReady w" "resources w \<noteq> None" "canvas w = Some cv" "webgl cv"
  shows "renderer (redraw w) = Some (next_ref w)"
    and "interactiveCanvas (redraw w) = Some (Suc (next_ref w))"
    and "next_ref (redraw w) = Suc (Suc (next_ref w))"
    and "instances (redraw w) =
           (instances w)(Suc (next_ref w) \<mapsto> new_InteractiveCanvas (structure_size w))"
    and "frames (redraw w) = frames w @ [RenderImmediately (Suc (next_ref w))]"
    and "canvas (redraw w) = canvas w"
proof -
  define w1 where "w1 = (case interactiveCanvas w of
                  Some i \<Rightarrow> (destroy i w)\<lparr>interactiveCanvas := None\<rparr>
                | None \<Rightarrow> w)"
  define w2 where "w2 = (case renderer w1 of Some _ \<Rightarrow> w1\<lparr>renderer := None\<rparr> | None \<Rightarrow> w1)"
  define w3 where "w3 = w2\<lparr>renderer := Some (next_ref w2), next_ref := Suc (next_ref w2)\<rparr>"
  define w4 where "w4 = snd (construct_InteractiveCanvas (structure_size w2) w3)"
  have eq: "redraw w = ic_redraw (next_ref w3) (w4\<lparr>interactiveCanvas := Some (next_ref w3)\<rparr>)"
    unfolding redraw_unfold[OF assms] w1_def w2_def w3_def w4_def Let_def by (rule refl)
  have 1: "next_ref w1 = next_ref w" "instances w1 = instances w" "frames w1 = frames w"
    "canvas w1 = canvas w" "structure_size w1 = structure_size w"
    unfolding w1_def by (cases "interactiveCanvas w"; simp add: destroy_fields destroy_def Let_def)+
  have 2: "next_ref w2 = next_ref w" "instances w2 = instances w" "frames w2 = frames w"
    "canvas w2 = canvas w" "structure_size w2 = structure_size w"
    unfolding w2_def using 1 by (cases "renderer w1"; simp)+
  have 3: "next_ref w3 = Suc (next_ref w)" "instances w3 = instances w" "frames w3 = frames w"
    "canvas w3 = canvas w" "renderer w3 = Some (next_ref w)"
    unfolding w3_def using 2 by simp_all
  show "renderer (redraw w) = Some (next_ref w)"
    and "interactiveCanvas (redraw w) = Some (Suc (next_ref w))"
    and "next_ref (redraw w) = Suc (Suc (next_ref w))"
    and "instances (redraw w) =
           (instances w)(Suc (next_ref w) \<mapsto> new_InteractiveCanvas (structure_size w))"
    and "frames (redraw w) = frames w @ [RenderImmediately (Suc (next_ref w))]"
    and "canvas (redraw w) = canvas w"
    unfolding eq w4_def using 2 3 by (simp_all add: ic_redraw_fields construct_fields)
qed

lemma listeners_wf_run_frame:
  assumes "listeners_wf w"
  shows "listeners_wf (run_frame w)"
proof (cases "frames w")
  case Nil
  then show ?thesis using assms by (simp add: run_frame_def)
next
  case (Cons f fs)
  have tl: "listeners_wf (w\<lparr>frames := fs\<rparr>)"
    using assms by (rule listeners_wf_fields) simp_all
  show ?thesis
  proof (cases f)
    case Redraw
    then show ?thesis using Cons tl by (simp add: run_frame_def listeners_wf_redraw)
  next
    case (RenderImmediately r)
    show ?thesis
    proof (cases "instances w r")
      case None
      then show ?thesis using Cons RenderImmediately tl by (simp add: run_frame_def)
    next
      case (Some s)
      have "listeners_wf (onRender (snd (renderImmediately s))
              (w\<lparr>frames := fs, instances := (instances w)(r \<mapsto> fst (renderImmediately s))\<rparr>))"
        using assms by (rule listeners_wf_fields) (simp_all add: onRender_fields)
      then show ?thesis
        using Cons RenderImmediately Some by (simp add: run_frame_def case_prod_beta)
    qed
  qed
qed

lemma listeners_wf_dispatch:
  assumes "listeners_wf w"
  shows "listeners_wf (dispatch tgt e w)"
  using assms by (rule listeners_wf_fields) (simp_all add: dispatch_fields)

lemma listeners_wf_act:
  assumes "listeners_wf w"
  shows "listeners_wf (act w a)"
proof (cases a)
  case Mounted
  then show ?thesis using assms by (simp add: onMounted_def listeners_wf_def allocated_alt)
next
  case Unmounted
  have "listeners_wf (w\<lparr>observing := False\<rparr>)"
    using assms by (rule listeners_wf_fields) simp_all
  then show ?thesis
    using Unmounted
    by (cases "interactiveCanvas w") (simp_all add: onUnmounted_def listeners_wf_destroy)
next
  case Resized
  have "\<And>c cv. listeners_wf (w\<lparr>canvas := c, frames := frames w @ [Redraw]\<rparr>)"
    using assms by (rule listeners_wf_fields) simp_all
  then have "listeners_wf (resizeObserver_callback w)"
    using assms by (simp add: resizeObserver_callback_def split: option.splits)
  then show ?thesis
    using Resized assms by simp
next
  case AnimationFrame
  then show ?thesis using assms by (simp add: listeners_wf_run_frame)
next
  case (Dispatched tgt e)
  then show ?thesis using assms by (simp add: listeners_wf_dispatch)
next
  case (OptionsChanged os)
  have a: "listeners_wf (w\<lparr>options := os\<rparr>)"
    using assms by (rule listeners_wf_fields) simp_all
  have "\<And>i. listeners_wf (ic_redraw i (w\<lparr>options := os\<rparr>))"
    using a by (rule listeners_wf_fields) (simp_all add: ic_redraw_fields)
  then have "listeners_wf (watch_options (w\<lparr>options := os\<rparr>))"
    using a by (simp add: watch_options_def split: option.splits)
  then show ?thesis
    using OptionsChanged a by simp
next
  case (ContainerChanged c)
  have "listeners_wf (w\<lparr>container := c\<rparr>)"
    using assms by (rule listeners_wf_fields) simp_all
  then show ?thesis using ContainerChanged by simp
next
  case (CanvasChanged c)
  have "listeners_wf (w\<lparr>canvas := c\<rparr>)"
    using assms by (rule listeners_wf_fields) simp_all
  then show ?thesis using CanvasChanged by simp
next
  case (ResourcesChanged ready rs)
  have "listeners_wf (w\<lparr>isReady := ready, resources := rs\<rparr>)"
    using assms by (rule listeners_wf_fields) simp_all
  then show ?thesis using ResourcesChanged by simp
next
  case (StructureChanged sz)
  have "listeners_wf (w\<lparr>structure_size := sz\<rparr>)"
    using assms by (rule listeners_wf_fields) simp_all
  then show ?thesis using StructureChanged by simp
qed

lemma listeners_wf_initial: "listeners_wf (initial_component c cv sz os ready rs)"
  by (simp add: listeners_wf_def initial_component_def allocated_def)

lemma listeners_wf_reachable:
  "listeners_wf (foldl act (initial_component c cv sz os ready rs) as)"
proof -
  have "\<And>w. listeners_wf w \<Longrightarrow> listeners_wf (foldl act w as)"
    by (induction as) (simp_all add: listeners_wf_act)
  then show ?thesis using listeners_wf_initial by blast
qed


lemma redraw_listeners:
  assumes "isReady w" "resources w \<noteq> None" "canvas w = Some cv" "webgl cv"
  shows "set (canvas_listeners (redraw w)) =
           set (canvas_listeners (case interactiveCanvas w of Some i \<Rightarrow> destroy i w | None \<Rightarrow> w))
           \<union> {(''mousedown'', Suc (next_ref w), HandleMouseDown),
              (''wheel'', Suc (next_ref w), HandleWheel),
              (''touchstart'', Suc (next_ref w), HandleTouchStart),
              (''touchmove'', Suc (next_ref w), HandleTouchMove),
              (''touchend'', Suc (next_ref w), HandleTouchEnd)}"
    and "set (document_listeners (redraw w)) =
           set (document_listeners (case interactiveCanvas w of Some i \<Rightarrow> destroy i w | None \<Rightarrow> w))
           \<union> {(''mousemove'', Suc (next_ref w), HandleMouseMove),
              (''mouseup'', Suc (next_ref w), HandleMouseUp)}"
proof -
  define w1 where "w1 = (case interactiveCanvas w of
                  Some i \<Rightarrow> (destroy i w)\<lparr>interactiveCanvas := None\<rparr>
                | None \<Rightarrow> w)"
  define w2 where "w2 = (case renderer w1 of Some _ \<Rightarrow> w1\<lparr>renderer := None\<rparr> | None \<Rightarrow> w1)"
  define w3 where "w3 = w2\<lparr>renderer := Some (next_ref w2), next_ref := Suc (next_ref w2)\<rparr>"
  define w4 where "w4 = snd (construct_InteractiveCanvas (structure_size w2) w3)"
  define d where "d = (case interactiveCanvas w of Some i \<Rightarrow> destroy i w | None \<Rightarrow> w)"
  have eq: "redraw w = ic_redraw (next_ref w3) (w4\<lparr>interactiveCanvas := Some (next_ref w3)\<rparr>)"
    unfolding redraw_unfold[OF assms] w1_def w2_def w3_def w4_def Let_def by (rule refl)
  have 1: "next_ref w1 = next_ref w" "canvas_listeners w1 = canvas_listeners d"
    "document_listeners w1 = document_listeners d"
    unfolding w1_def d_def by (cases "interactiveCanvas w"; simp add: destroy_fields)+
  have 2: "next_ref w2 = next_ref w" "canvas_listeners w2 = canvas_listeners d"
    "document_listeners w2 = document_listeners d"
    unfolding w2_def using 1 by (cases "renderer w1"; simp)+
  have 3: "next_ref w3 = Suc (next_ref w)" "canvas_listeners w3 = canvas_listeners d"
    "document_listeners w3 = document_listeners d"
    unfolding w3_def using 2 by simp_all
  show "set (canvas_listeners (redraw w)) =
           set (canvas_listeners (case interactiveCanvas w of Some i \<Rightarrow> destroy i w | None \<Rightarrow> w))
           \<union> {(''mousedown'', Suc (next_ref w), HandleMouseDown),
              (''wheel'', Suc (next_ref w), HandleWheel),
              (''touchstart'', Suc (next_ref w), HandleTouchStart),
              (''touchmove'', Suc (next_ref w), HandleTouchMove),
              (''touchend'', Suc (next_ref w), HandleTouchEnd)}"
    unfolding eq w4_def d_def[symmetric]
    by (simp add: ic_redraw_fields construct_listeners 3)
  show "set (document_listeners (redraw w)) =
           set (document_listeners (case interactiveCanvas w of Some i \<Rightarrow> destroy i w | None \<Rightarrow> w))
           \<union> {(''mousemove'', Suc (next_ref w), HandleMouseMove),
              (''mouseup'', Suc (next_ref w), HandleMouseUp)}"
    unfolding eq w4_def d_def[symmetric]
    by (simp add: ic_redraw_fields construct_listeners 3)
qed


lemma redraw_detaches_old:
  assumes "isReady w" "resources w \<noteq> None" "canvas w = Some cv" "webgl cv"
    and "listeners_wf w" and "interactiveCanvas w = Some i"
    and "l \<in> set (canvas_listeners (redraw w) @ document_listeners (redraw w))"
  shows "fst (snd l) \<noteq> i"
proof -
  have i: "i < next_ref w"
    using assms(5,6) by (simp add: listeners_wf_def allocated_alt)
  have "l \<in> set (canvas_listeners (destroy i w) @ document_listeners (destroy i w))
        \<or> fst (snd l) = Suc (next_ref w)"
    using assms(7) redraw_listeners[OF assms(1-4)] assms(6) by auto
  then show ?thesis
    using destroy_detaches[OF assms(5), of i] i by auto
qed

lemma dispatch_all_detached:
  assumes "\<forall>l \<in> set (canvas_listeners w @ document_listeners w). fst (snd l) \<noteq> r"
  shows "instances (foldl (\<lambda>w (tgt, e). dispatch tgt e w) w evs) r = instances w r"
  using assms
proof (induction evs arbitrary: w)
  case Nil
  show ?case by simp
next
  case (Cons ev evs)
  obtain tgt e where ev: "ev = (tgt, e)" by (cases ev)
  have keep: "\<forall>l \<in> set (canvas_listeners (dispatch tgt e w) @ document_listeners (dispatch tgt e w)).
                fst (snd l) \<noteq> r"
    using Cons.prems by (simp add: dispatch_fields)
  have "instances (foldl (\<lambda>w (tgt, e). dispatch tgt e w) (dispatch tgt e w) evs) r =
        instances (dispatch tgt e w) r"
    using keep by (rule Cons.IH)
  also have "\<dots> = instances w r"
    using Cons.prems by (rule dispatch_detached_instance)
  finally show ?case by (simp add: ev)
qed

text \<open>
  Claim C7. \<open>destroy()\<close> removes the seven listeners the constructor attached. In a
  component whose listener lists satisfy the invariant (every reachable one does),
  no listener of the destroyed instance is left at the canvas or at the document, and
  the fields of the instance are what they were before \<open>destroy()\<close> after every sequence
  of events dispatched to the canvas or to the document.
\<close>

theorem destroy_detaches_every_listener:
  assumes "listeners_wf w"
  shows "list_all (\<lambda>l. fst (snd l) \<noteq> r)
           (canvas_listeners (destroy r w) @ document_listeners (destroy r w))
       \<and> instances (destroy r w) r = instances w r
       \<and> instances (foldl (\<lambda>w (tgt, e). dispatch tgt e w) (destroy r w) evs) r = instances w r"
proof -
  have d: "\<forall>l \<in> set (canvas_listeners (destroy r w) @ document_listeners (destroy r w)).
             fst (snd l) \<noteq> r"
    using assms by (rule destroy_detaches)
  have "instances (foldl (\<lambda>w (tgt, e). dispatch tgt e w) (destroy r w) evs) r =
        instances (destroy r w) r"
    using d by (rule dispatch_all_detached)
  then show ?thesis
    using d by (simp add: destroy_fields list_all_iff)
qed

lemma built_component:
  "foldl act (initial_component (Some \<lparr>clientWidth = 800, clientHeight = 600\<rparr>)
       (Some \<lparr>width = 300, height = 150, webgl = True\<rparr>) (3, 4, 0)
       \<lparr>grid = False, invisibleBlocks = False\<rparr> True (Some 0))
     [Mounted, Resized, AnimationFrame] =
   \<lparr>container = Some \<lparr>clientWidth = 800, clientHeight = 600\<rparr>,
    canvas = Some \<lparr>width = 800, height = 600, webgl = True\<rparr>,
    structure_size = (3, 4, 0), options = \<lparr>grid = False, invisibleBlocks = False\<rparr>,
    isReady = True, resources = Some 0, renderer = Some 0, interactiveCanvas = Some 1,
    instances = (\<lambda>_. None)(1 \<mapsto> new_InteractiveCanvas (3, 4, 0)), next_ref = 2,
    canvas_listeners =
      [(''mousedown'', 1, HandleMouseDown), (''wheel'', 1, HandleWheel),
       (''touchstart'', 1, HandleTouchStart), (''touchmove'', 1, HandleTouchMove),
       (''touchend'', 1, HandleTouchEnd)],
    document_listeners = [(''mousemove'', 1, HandleMouseMove), (''mouseup'', 1, HandleMouseUp)],
    frames = [RenderImmediately 1], gl_calls = [], uncaught = 0, observing = True\<rparr>"
  by (simp add: initial_component_def onMounted_def resizeObserver_callback_def run_frame_def
      redraw_def construct_InteractiveCanvas_def addEventListener_def ic_redraw_def Let_def
      del: new_InteractiveCanvas.simps)

theorem destroy_detaches_every_listener_witness:
  "listeners_wf (foldl act (initial_component (Some \<lparr>clientWidth = 800, clientHeight = 600\<rparr>)
       (Some \<lparr>width = 300, height = 150, webgl = True\<rparr>) (3, 4, 0)
       \<lparr>grid = False, invisibleBlocks = False\<rparr> True (Some 0))
     [Mounted, Resized, AnimationFrame])
   \<and> instances (foldl (\<lambda>w (tgt, e). dispatch tgt e w) (destroy 1 (foldl act (initial_component (Some \<lparr>clientWidth = 800, clientHeight = 600\<rparr>)
       (Some \<lparr>width = 300, height = 150, webgl = True\<rparr>) (3, 4, 0)
       \<lparr>grid = False, invisibleBlocks = False\<rparr> True (Some 0))
     [Mounted, Resized, AnimationFrame])) [(OnCanvas, Wheel \<lparr>deltaY = 100\<rparr>),
         (OnCanvas, MouseDown \<lparr>button = 0, clientX = 0, clientY = 0\<rparr>),
         (OnDocument, MouseMove \<lparr>button = 0, clientX = 50, clientY = 50\<rparr>)]) 1 =
       Some (new_InteractiveCanvas (3, 4, 0))"
proof -
  have h: "listeners_wf (foldl act (initial_component (Some \<lparr>clientWidth = 800, clientHeight = 600\<rparr>)
       (Some \<lparr>width = 300, height = 150, webgl = True\<rparr>) (3, 4, 0)
       \<lparr>grid = False, invisibleBlocks = False\<rparr> True (Some 0))
     [Mounted, Resized, AnimationFrame])"
    by (rule listeners_wf_reachable)
  have "instances (foldl (\<lambda>w (tgt, e). dispatch tgt e w) (destroy 1 (foldl act (initial_component (Some \<lparr>clientWidth = 800, clientHeight = 600\<rparr>)
       (Some \<lparr>width = 300, height = 150, webgl = True\<rparr>) (3, 4, 0)
       \<lparr>grid = False, invisibleBlocks = False\<rparr> True (Some 0))
     [Mounted, Resized, AnimationFrame])) [(OnCanvas, Wheel \<lparr>deltaY = 100\<rparr>),
         (OnCanvas, MouseDown \<lparr>button = 0, clientX = 0, clientY = 0\<rparr>),
         (OnDocument, MouseMove \<lparr>button = 0, clientX = 50, clientY = 50\<rparr>)]) 1 =
        instances (foldl act (initial_component (Some \<lparr>clientWidth = 800, clientHeight = 600\<rparr>)
       (Some \<lparr>width = 300, height = 150, webgl = True\<rparr>) (3, 4, 0)
       \<lparr>grid = False, invisibleBlocks = False\<rparr> True (Some 0))
     [Mounted, Resized, AnimationFrame]) 1"
    using destroy_detaches_every_listener[OF h, of 1 "[(OnCanvas, Wheel \<lparr>deltaY = 100\<rparr>),
         (OnCanvas, MouseDown \<lparr>button = 0, clientX = 0, clientY = 0\<rparr>),
         (OnDocument, MouseMove \<lparr>button = 0, clientX = 50, clientY = 50\<rparr>)]"] by blast
  then show ?thesis
    using h by (simp only: built_component Component.simps fun_upd_same simp_thms)
qed

text \<open>
  The two levels agree. In a component whose listeners are exactly those of one
  controller, an event on the canvas does to the controller what \<open>handleEvent\<close> does
  and requests a frame exactly when the handler asks for a redraw; an event on the
  document outside the canvas reaches the mouse-move and mouse-up handlers only.
\<close>

lemma dispatch_sole_controller:
  assumes "canvas_listeners w =
      [(''mousedown'', r, HandleMouseDown), (''wheel'', r, HandleWheel),
       (''touchstart'', r, HandleTouchStart), (''touchmove'', r, HandleTouchMove),
       (''touchend'', r, HandleTouchEnd)]"
    and "document_listeners w = [(''mousemove'', r, HandleMouseMove), (''mouseup'', r, HandleMouseUp)]"
    and "instances w r = Some s"
  shows "instances (dispatch OnCanvas e w) r = Some (fst (handleEvent e s))
       \<and> frames (dispatch OnCanvas e w) =
           frames w @ (if snd (handleEvent e s) then [RenderImmediately r] else [])"
  using assms
  by (cases e)
     (simp_all add: dispatch_def invoke_def ic_redraw_def case_prod_beta Let_def)

lemma dispatch_sole_controller_document:
  assumes "document_listeners w = [(''mousemove'', r, HandleMouseMove), (''mouseup'', r, HandleMouseUp)]"
    and "instances w r = Some s"
  shows "instances (dispatch OnDocument e w) r =
           Some (case e of
                   MouseMove _ \<Rightarrow> fst (handleEvent e s)
                 | MouseUp _ \<Rightarrow> fst (handleEvent e s)
                 | _ \<Rightarrow> s)"
  using assms
  by (cases e)
     (simp_all add: dispatch_def invoke_def ic_redraw_def case_prod_beta Let_def)

text \<open>
  Without \<open>destroy()\<close> the same events do reach the controller: the wheel event moves
  \<open>viewDist\<close> from \<open>5\<close> to \<open>6\<close>, the drag turns the camera.
\<close>

lemma live_controller_handles_events:
  "instances (foldl (\<lambda>w (tgt, e). dispatch tgt e w) (foldl act (initial_component (Some \<lparr>clientWidth = 800, clientHeight = 600\<rparr>)
       (Some \<lparr>width = 300, height = 150, webgl = True\<rparr>) (3, 4, 0)
       \<lparr>grid = False, invisibleBlocks = False\<rparr> True (Some 0))
     [Mounted, Resized, AnimationFrame]) [(OnCanvas, Wheel \<lparr>deltaY = 100\<rparr>),
         (OnCanvas, MouseDown \<lparr>button = 0, clientX = 0, clientY = 0\<rparr>),
         (OnDocument, MouseMove \<lparr>button = 0, clientX = 50, clientY = 50\<rparr>)]) 1 =
     Some ((new_InteractiveCanvas (3, 4, 0))
            \<lparr>xRot := Fin 1, yRot := Fin 1, dragPos := Some (50, 50), viewDist := Fin 6\<rparr>)"
  unfolding built_component
  by (simp add: dispatch_def invoke_def ic_redraw_def handleWheel_def handleMouseDown_def
      handleMouseMove_def js_sub_def overflow_small new_3_4_0 del: new_InteractiveCanvas.simps)

subsection \<open>Resize\<close>

lemma onRender_env:
  "isReady (onRender v w) = isReady w"
  "resources (onRender v w) = resources w"
  "canvas (onRender v w) = canvas w"
  "structure_size (onRender v w) = structure_size w"
  by (simp_all add: onRender_def Let_def split: option.splits)

text \<open>
  Neither the render callback nor \<open>redraw\<close> touches the template refs, the props or
  the resource store; \<open>redraw\<close> only adds to the frame queue and to the store of
  instances.
\<close>

lemma redraw_env:
  "isReady (redraw w) = isReady w"
  "resources (redraw w) = resources w"
  "canvas (redraw w) = canvas w"
  "structure_size (redraw w) = structure_size w"
proof -
  have "isReady (redraw w) = isReady w \<and> resources (redraw w) = resources w
      \<and> canvas (redraw w) = canvas w \<and> structure_size (redraw w) = structure_size w"
  proof (cases "isReady w \<and> resources w \<noteq> None \<and> (\<exists>cv. canvas w = Some cv \<and> webgl cv)")
    case False
    then show ?thesis by (simp add: redraw_skipped)
  next
    case True
    then obtain cv where g: "isReady w" "resources w \<noteq> None" "canvas w = Some cv" "webgl cv"
      by blast
    define w1 where "w1 = (case interactiveCanvas w of
                    Some i \<Rightarrow> (destroy i w)\<lparr>interactiveCanvas := None\<rparr>
                  | None \<Rightarrow> w)"
    define w2 where "w2 = (case renderer w1 of Some _ \<Rightarrow> w1\<lparr>renderer := None\<rparr> | None \<Rightarrow> w1)"
    define w3 where "w3 = w2\<lparr>renderer := Some (next_ref w2), next_ref := Suc (next_ref w2)\<rparr>"
    define w4 where "w4 = snd (construct_InteractiveCanvas (structure_size w2) w3)"
    have eq: "redraw w = ic_redraw (next_ref w3) (w4\<lparr>interactiveCanvas := Some (next_ref w3)\<rparr>)"
      unfolding redraw_unfold[OF g] w1_def w2_def w3_def w4_def Let_def by (rule refl)
    have 1: "isReady w1 = isReady w" "resources w1 = resources w" "canvas w1 = canvas w"
      "structure_size w1 = structure_size w"
      unfolding w1_def by (cases "interactiveCanvas w"; simp add: destroy_def Let_def)+
    have 2: "isReady w2 = isReady w" "resources w2 = resources w" "canvas w2 = canvas w"
      "structure_size w2 = structure_size w"
      unfolding w2_def using 1 by (cases "renderer w1"; simp)+
    have 4: "isReady w4 = isReady w" "resources w4 = resources w" "canvas w4 = canvas w"
      "structure_size w4 = structure_size w"
      unfolding w4_def w3_def using 2 by (simp_all add: construct_InteractiveCanvas_def Let_def)
    show ?thesis
      unfolding eq using 4 by (simp add: ic_redraw_def)
  qed
  then show "isReady (redraw w) = isReady w" "resources (redraw w) = resources w"
    "canvas (redraw w) = canvas w" "structure_size (redraw w) = structure_size w"
    by simp_all
qed

lemma redraw_frames: "\<exists>extra. frames (redraw w) = frames w @ extra"
proof (cases "isReady w \<and> resources w \<noteq> None \<and> (\<exists>cv. canvas w = Some cv \<and> webgl cv)")
  case False
  then show ?thesis by (simp add: redraw_skipped)
next
  case True
  then obtain cv where g: "isReady w" "resources w \<noteq> None" "canvas w = Some cv" "webgl cv"
    by blast
  show ?thesis using redraw_built(5)[OF g] by simp
qed

lemma redraw_next_ref: "next_ref w \<le> next_ref (redraw w)"
proof (cases "isReady w \<and> resources w \<noteq> None \<and> (\<exists>cv. canvas w = Some cv \<and> webgl cv)")
  case False
  then show ?thesis by (simp add: redraw_skipped)
next
  case True
  then obtain cv where g: "isReady w" "resources w \<noteq> None" "canvas w = Some cv" "webgl cv"
    by blast
  show ?thesis using redraw_built(3)[OF g] by simp
qed

text \<open>
  One frame takes the oldest callback off the queue and may append new ones. So the
  callbacks that stand before a \<open>Redraw\<close> in the queue run first, and after as many
  frames as there are of them the \<open>Redraw\<close> is the oldest.
\<close>

lemma run_frame_step:
  assumes "frames w = f # fs"
  shows "(\<exists>extra. frames (run_frame w) = fs @ extra)
       \<and> isReady (run_frame w) = isReady w \<and> resources (run_frame w) = resources w
       \<and> canvas (run_frame w) = canvas w \<and> structure_size (run_frame w) = structure_size w
       \<and> next_ref w \<le> next_ref (run_frame w)"
proof (cases f)
  case Redraw
  then have r: "run_frame w = redraw (w\<lparr>frames := fs\<rparr>)"
    using assms by (simp add: run_frame_def)
  show ?thesis
    unfolding r
    using redraw_frames[of "w\<lparr>frames := fs\<rparr>"] redraw_next_ref[of "w\<lparr>frames := fs\<rparr>"]
    by (simp add: redraw_env)
next
  case (RenderImmediately r)
  show ?thesis
  proof (cases "instances w r")
    case None
    then show ?thesis using assms RenderImmediately by (simp add: run_frame_def)
  next
    case (Some s)
    then show ?thesis
      using assms RenderImmediately
      by (simp add: run_frame_def case_prod_beta onRender_fields onRender_env)
  qed
qed

lemma frames_until_redraw:
  assumes "frames w = fs @ Redraw # rest" and "listeners_wf w"
  shows "(\<exists>rest'. frames ((run_frame ^^ length fs) w) = Redraw # rest')
       \<and> listeners_wf ((run_frame ^^ length fs) w)
       \<and> isReady ((run_frame ^^ length fs) w) = isReady w
       \<and> resources ((run_frame ^^ length fs) w) = resources w
       \<and> canvas ((run_frame ^^ length fs) w) = canvas w
       \<and> structure_size ((run_frame ^^ length fs) w) = structure_size w
       \<and> next_ref w \<le> next_ref ((run_frame ^^ length fs) w)"
  using assms
proof (induction fs arbitrary: w rest)
  case Nil
  then show ?case by simp
next
  case (Cons f fs)
  have fr: "frames w = f # (fs @ Redraw # rest)" using Cons.prems(1) by simp
  note st = run_frame_step[OF fr]
  from st obtain extra where e: "frames (run_frame w) = fs @ Redraw # (rest @ extra)" by auto
  have wf: "listeners_wf (run_frame w)" using Cons.prems(2) by (rule listeners_wf_run_frame)
  note ih = Cons.IH[OF e wf]
  have p: "(run_frame ^^ length (f # fs)) w = (run_frame ^^ length fs) (run_frame w)"
    by (simp add: funpow_swap1)
  show ?case
    unfolding p using ih st by auto
qed


text \<open>
  Claim C1, as the code has it. With container and canvas mounted, the resize callback
  sets the canvas's width and height to the container's client width and height and
  requests a frame for the component's \<open>redraw\<close>; the callback itself touches
  nothing else. The frames requested before it run first (\<open>wk\<close> is the component after
  them); the next frame is the requested \<open>redraw\<close>. If the resources are ready and the
  canvas has a WebGL context, that frame detaches the listeners of the controller that
  exists then and installs a new renderer and a new controller with a fresh camera:
  both module variables then hold references that did not exist before, neither when
  the frame started nor when the resize was observed. If the guards of \<open>redraw\<close> fail,
  the frame only leaves the queue.
\<close>

theorem resize_resizes_canvas_and_rebuilds:
  assumes "container w = Some c" and "canvas w = Some cv" and "listeners_wf w"
  shows "let cv' = cv\<lparr>width := clientWidth c, height := clientHeight c\<rparr>;
             w1 = resizeObserver_callback w;
             wk = (run_frame ^^ length (frames w)) w1;
             w' = run_frame wk
         in w1 = w\<lparr>canvas := Some cv', frames := frames w @ [Redraw]\<rparr>
          \<and> frames wk \<noteq> [] \<and> hd (frames wk) = Redraw
          \<and> canvas wk = Some cv'
          \<and> (isReady w \<and> resources w \<noteq> None \<and> webgl cv \<longrightarrow>
                canvas w' = Some cv'
              \<and> renderer w' = Some (next_ref wk)
              \<and> renderer w' \<noteq> renderer wk \<and> renderer w' \<noteq> renderer w
              \<and> interactiveCanvas w' = Some (Suc (next_ref wk))
              \<and> interactiveCanvas w' \<noteq> interactiveCanvas wk
              \<and> interactiveCanvas w' \<noteq> interactiveCanvas w
              \<and> instances w' (Suc (next_ref wk)) = Some (new_InteractiveCanvas (structure_size w))
              \<and> list_all (\<lambda>l. Some (fst (snd l)) \<noteq> interactiveCanvas wk)
                   (canvas_listeners w' @ document_listeners w'))
          \<and> (\<not> (isReady w \<and> resources w \<noteq> None \<and> webgl cv) \<longrightarrow>
                w' = wk\<lparr>frames := tl (frames wk)\<rparr>)"
proof -
  define cv' where "cv' = cv\<lparr>width := clientWidth c, height := clientHeight c\<rparr>"
  define w1 where "w1 = resizeObserver_callback w"
  define wk where "wk = (run_frame ^^ length (frames w)) w1"
  have cb: "w1 = w\<lparr>canvas := Some cv', frames := frames w @ [Redraw]\<rparr>"
    unfolding w1_def using assms(1,2) by (simp add: resizeObserver_callback_def cv'_def)
  have wf1: "listeners_wf w1"
    unfolding cb using assms(3) by (rule listeners_wf_fields) simp_all
  have f1: "frames w1 = frames w @ Redraw # []" by (simp add: cb)
  note q = frames_until_redraw[OF f1 wf1, folded wk_def]
  from q obtain rest where fk: "frames wk = Redraw # rest" by blast
  have wfk: "listeners_wf wk" using q by blast
  have envk: "isReady wk = isReady w" "resources wk = resources w" "canvas wk = Some cv'"
    "structure_size wk = structure_size w" "webgl cv' = webgl cv"
    using q by (simp_all add: cb cv'_def)
  have nk: "next_ref w \<le> next_ref wk" using q by (simp add: cb)
  define w0 where "w0 = wk\<lparr>frames := rest\<rparr>"
  have rf: "run_frame wk = redraw w0"
    using fk by (simp add: run_frame_def w0_def)
  have wf0: "listeners_wf w0"
    unfolding w0_def using wfk by (rule listeners_wf_fields) simp_all
  have f0: "isReady w0 = isReady w" "resources w0 = resources w" "canvas w0 = Some cv'"
    "next_ref w0 = next_ref wk" "renderer w0 = renderer wk"
    "interactiveCanvas w0 = interactiveCanvas wk" "structure_size w0 = structure_size w"
    by (simp_all add: w0_def envk)
  have built: "canvas (redraw w0) = Some cv'
       \<and> renderer (redraw w0) = Some (next_ref wk)
       \<and> renderer (redraw w0) \<noteq> renderer wk \<and> renderer (redraw w0) \<noteq> renderer w
       \<and> interactiveCanvas (redraw w0) = Some (Suc (next_ref wk))
       \<and> interactiveCanvas (redraw w0) \<noteq> interactiveCanvas wk
       \<and> interactiveCanvas (redraw w0) \<noteq> interactiveCanvas w
       \<and> instances (redraw w0) (Suc (next_ref wk)) = Some (new_InteractiveCanvas (structure_size w))
       \<and> list_all (\<lambda>l. Some (fst (snd l)) \<noteq> interactiveCanvas wk)
            (canvas_listeners (redraw w0) @ document_listeners (redraw w0))"
    if g: "isReady w" "resources w \<noteq> None" "webgl cv"
  proof -
    have g0: "isReady w0" "resources w0 \<noteq> None" "canvas w0 = Some cv'" "webgl cv'"
      using g by (simp_all add: f0 envk)
    note b = redraw_built[OF g0]
    have rk: "renderer wk \<noteq> Some (next_ref wk)" "interactiveCanvas wk \<noteq> Some (Suc (next_ref wk))"
      using wfk by (auto simp: listeners_wf_def allocated_alt)
    have rw: "renderer w \<noteq> Some (next_ref wk)" "interactiveCanvas w \<noteq> Some (Suc (next_ref wk))"
      using assms(3) nk by (auto simp: listeners_wf_def allocated_alt)
    have old: "list_all (\<lambda>l. Some (fst (snd l)) \<noteq> interactiveCanvas wk)
            (canvas_listeners (redraw w0) @ document_listeners (redraw w0))"
    proof (cases "interactiveCanvas wk")
      case None
      then show ?thesis by (simp add: list_all_iff)
    next
      case (Some i)
      then have "interactiveCanvas w0 = Some i" by (simp add: f0)
      then have "\<forall>l \<in> set (canvas_listeners (redraw w0) @ document_listeners (redraw w0)).
                   fst (snd l) \<noteq> i"
        using redraw_detaches_old[OF g0 wf0] by blast
      then show ?thesis using Some by (simp add: list_all_iff)
    qed
    show ?thesis
      using b rk rw old by (simp add: f0)
  qed
  have skipped: "redraw w0 = wk\<lparr>frames := tl (frames wk)\<rparr>"
    if "\<not> (isReady w \<and> resources w \<noteq> None \<and> webgl cv)"
  proof -
    have "redraw w0 = w0" using that by (intro redraw_skipped) (auto simp: f0 envk)
    then show ?thesis by (simp add: w0_def fk)
  qed
  have hdk: "frames wk \<noteq> [] \<and> hd (frames wk) = Redraw" by (simp add: fk)
  show ?thesis
    unfolding Let_def cv'_def[symmetric] w1_def[symmetric] wk_def[symmetric] rf
    using cb hdk envk(3) built skipped by blast
qed

text \<open>
  A component is mounted and built by its first resize: renderer \<open>0\<close>, controller \<open>1\<close>,
  the first render still requested. The container then changes its size.
\<close>

lemma resized_built_component:
  fixes B :: Component
  assumes "B = (foldl act (initial_component (Some \<lparr>clientWidth = 800, clientHeight = 600\<rparr>)
       (Some \<lparr>width = 300, height = 150, webgl = True\<rparr>) (3, 4, 0)
       \<lparr>grid = False, invisibleBlocks = False\<rparr> True (Some 0))
     [Mounted, Resized, AnimationFrame,
      ContainerChanged (Some \<lparr>clientWidth = 1024, clientHeight = 768\<rparr>)])"
  shows "container B = Some \<lparr>clientWidth = 1024, clientHeight = 768\<rparr>"
    and "canvas B = Some \<lparr>width = 800, height = 600, webgl = True\<rparr>"
    and "frames B = [RenderImmediately 1]"
    and "renderer B = Some 0" and "interactiveCanvas B = Some 1" and "next_ref B = 2"
    and "isReady B" and "resources B = Some 0" and "observing B"
    and "instances B 1 = Some (new_InteractiveCanvas (3, 4, 0))"
proof -
  have "B = (foldl act (initial_component (Some \<lparr>clientWidth = 800, clientHeight = 600\<rparr>)
       (Some \<lparr>width = 300, height = 150, webgl = True\<rparr>) (3, 4, 0)
       \<lparr>grid = False, invisibleBlocks = False\<rparr> True (Some 0))
     [Mounted, Resized, AnimationFrame])\<lparr>container := Some \<lparr>clientWidth = 1024, clientHeight = 768\<rparr>\<rparr>"
    unfolding assms by simp
  then show "container B = Some \<lparr>clientWidth = 1024, clientHeight = 768\<rparr>"
    and "canvas B = Some \<lparr>width = 800, height = 600, webgl = True\<rparr>"
    and "frames B = [RenderImmediately 1]"
    and "renderer B = Some 0" and "interactiveCanvas B = Some 1" and "next_ref B = 2"
    and "isReady B" and "resources B = Some 0" and "observing B"
    and "instances B 1 = Some (new_InteractiveCanvas (3, 4, 0))"
    unfolding built_component by simp_all
qed

lemma frame_of_resized_built_component:
  fixes B :: Component
  assumes "B = (foldl act (initial_component (Some \<lparr>clientWidth = 800, clientHeight = 600\<rparr>)
       (Some \<lparr>width = 300, height = 150, webgl = True\<rparr>) (3, 4, 0)
       \<lparr>grid = False, invisibleBlocks = False\<rparr> True (Some 0))
     [Mounted, Resized, AnimationFrame,
      ContainerChanged (Some \<lparr>clientWidth = 1024, clientHeight = 768\<rparr>)])"
  shows "renderer (run_frame (resizeObserver_callback B)) = Some 0"
    and "interactiveCanvas (run_frame (resizeObserver_callback B)) = Some 1"
    and "next_ref (run_frame (resizeObserver_callback B)) = 2"
    and "frames (run_frame (resizeObserver_callback B)) = [Redraw]"
    and "isReady (run_frame (resizeObserver_callback B))"
    and "resources (run_frame (resizeObserver_callback B)) = Some 0"
    and "canvas (run_frame (resizeObserver_callback B)) =
           Some \<lparr>width = 1024, height = 768, webgl = True\<rparr>"
proof -
  note b = resized_built_component[OF assms]
  define B2 where "B2 = resizeObserver_callback B"
  have B2: "renderer B2 = Some 0" "interactiveCanvas B2 = Some 1" "next_ref B2 = 2"
    "frames B2 = [RenderImmediately 1, Redraw]" "isReady B2" "resources B2 = Some 0"
    "canvas B2 = Some \<lparr>width = 1024, height = 768, webgl = True\<rparr>"
    "instances B2 1 = Some (new_InteractiveCanvas (3, 4, 0))"
    unfolding B2_def using b by (simp_all add: resizeObserver_callback_def)
  show "renderer (run_frame (resizeObserver_callback B)) = Some 0"
    and "interactiveCanvas (run_frame (resizeObserver_callback B)) = Some 1"
    and "next_ref (run_frame (resizeObserver_callback B)) = 2"
    and "frames (run_frame (resizeObserver_callback B)) = [Redraw]"
    and "isReady (run_frame (resizeObserver_callback B))"
    and "resources (run_frame (resizeObserver_callback B)) = Some 0"
    and "canvas (run_frame (resizeObserver_callback B)) =
           Some \<lparr>width = 1024, height = 768, webgl = True\<rparr>"
    unfolding B2_def[symmetric] using B2
    by (simp_all add: run_frame_def case_prod_beta onRender_fields onRender_env)
qed

theorem resize_resizes_canvas_and_rebuilds_witness:
  "container (foldl act (initial_component (Some \<lparr>clientWidth = 800, clientHeight = 600\<rparr>)
       (Some \<lparr>width = 300, height = 150, webgl = True\<rparr>) (3, 4, 0)
       \<lparr>grid = False, invisibleBlocks = False\<rparr> True (Some 0))
     [Mounted, Resized, AnimationFrame,
      ContainerChanged (Some \<lparr>clientWidth = 1024, clientHeight = 768\<rparr>)]) = Some \<lparr>clientWidth = 1024, clientHeight = 768\<rparr>
   \<and> canvas (foldl act (initial_component (Some \<lparr>clientWidth = 800, clientHeight = 600\<rparr>)
       (Some \<lparr>width = 300, height = 150, webgl = True\<rparr>) (3, 4, 0)
       \<lparr>grid = False, invisibleBlocks = False\<rparr> True (Some 0))
     [Mounted, Resized, AnimationFrame,
      ContainerChanged (Some \<lparr>clientWidth = 1024, clientHeight = 768\<rparr>)]) = Some \<lparr>width = 800, height = 600, webgl = True\<rparr>
   \<and> listeners_wf (foldl act (initial_component (Some \<lparr>clientWidth = 800, clientHeight = 600\<rparr>)
       (Some \<lparr>width = 300, height = 150, webgl = True\<rparr>) (3, 4, 0)
       \<lparr>grid = False, invisibleBlocks = False\<rparr> True (Some 0))
     [Mounted, Resized, AnimationFrame,
      ContainerChanged (Some \<lparr>clientWidth = 1024, clientHeight = 768\<rparr>)])
   \<and> frames (foldl act (initial_component (Some \<lparr>clientWidth = 800, clientHeight = 600\<rparr>)
       (Some \<lparr>width = 300, height = 150, webgl = True\<rparr>) (3, 4, 0)
       \<lparr>grid = False, invisibleBlocks = False\<rparr> True (Some 0))
     [Mounted, Resized, AnimationFrame,
      ContainerChanged (Some \<lparr>clientWidth = 1024, clientHeight = 768\<rparr>)]) = [RenderImmediately 1]
   \<and> renderer (foldl act (initial_component (Some \<lparr>clientWidth = 800, clientHeight = 600\<rparr>)
       (Some \<lparr>width = 300, height = 150, webgl = True\<rparr>) (3, 4, 0)
       \<lparr>grid = False, invisibleBlocks = False\<rparr> True (Some 0))
     [Mounted, Resized, AnimationFrame,
      ContainerChanged (Some \<lparr>clientWidth = 1024, clientHeight = 768\<rparr>)]) = Some 0 \<and> interactiveCanvas (foldl act (initial_component (Some \<lparr>clientWidth = 800, clientHeight = 600\<rparr>)
       (Some \<lparr>width = 300, height = 150, webgl = True\<rparr>) (3, 4, 0)
       \<lparr>grid = False, invisibleBlocks = False\<rparr> True (Some 0))
     [Mounted, Resized, AnimationFrame,
      ContainerChanged (Some \<lparr>clientWidth = 1024, clientHeight = 768\<rparr>)]) = Some 1
   \<and> renderer (run_frame (run_frame (resizeObserver_callback (foldl act (initial_component (Some \<lparr>clientWidth = 800, clientHeight = 600\<rparr>)
       (Some \<lparr>width = 300, height = 150, webgl = True\<rparr>) (3, 4, 0)
       \<lparr>grid = False, invisibleBlocks = False\<rparr> True (Some 0))
     [Mounted, Resized, AnimationFrame,
      ContainerChanged (Some \<lparr>clientWidth = 1024, clientHeight = 768\<rparr>)])))) = Some 2
   \<and> interactiveCanvas (run_frame (run_frame (resizeObserver_callback (foldl act (initial_component (Some \<lparr>clientWidth = 800, clientHeight = 600\<rparr>)
       (Some \<lparr>width = 300, height = 150, webgl = True\<rparr>) (3, 4, 0)
       \<lparr>grid = False, invisibleBlocks = False\<rparr> True (Some 0))
     [Mounted, Resized, AnimationFrame,
      ContainerChanged (Some \<lparr>clientWidth = 1024, clientHeight = 768\<rparr>)])))) = Some 3
   \<and> list_all (\<lambda>l. fst (snd l) \<noteq> 1)
        (canvas_listeners (run_frame (run_frame (resizeObserver_callback (foldl act (initial_component (Some \<lparr>clientWidth = 800, clientHeight = 600\<rparr>)
       (Some \<lparr>width = 300, height = 150, webgl = True\<rparr>) (3, 4, 0)
       \<lparr>grid = False, invisibleBlocks = False\<rparr> True (Some 0))
     [Mounted, Resized, AnimationFrame,
      ContainerChanged (Some \<lparr>clientWidth = 1024, clientHeight = 768\<rparr>)]))))
         @ document_listeners (run_frame (run_frame (resizeObserver_callback (foldl act (initial_component (Some \<lparr>clientWidth = 800, clientHeight = 600\<rparr>)
       (Some \<lparr>width = 300, height = 150, webgl = True\<rparr>) (3, 4, 0)
       \<lparr>grid = False, invisibleBlocks = False\<rparr> True (Some 0))
     [Mounted, Resized, AnimationFrame,
      ContainerChanged (Some \<lparr>clientWidth = 1024, clientHeight = 768\<rparr>)])))))"
proof -
  define B where "B = (foldl act (initial_component (Some \<lparr>clientWidth = 800, clientHeight = 600\<rparr>)
       (Some \<lparr>width = 300, height = 150, webgl = True\<rparr>) (3, 4, 0)
       \<lparr>grid = False, invisibleBlocks = False\<rparr> True (Some 0))
     [Mounted, Resized, AnimationFrame,
      ContainerChanged (Some \<lparr>clientWidth = 1024, clientHeight = 768\<rparr>)])"
  note b = resized_built_component[OF B_def]
  note k = frame_of_resized_built_component[OF B_def]
  have wf: "listeners_wf B"
    unfolding B_def by (rule listeners_wf_reachable)
  have g: "isReady B \<and> resources B \<noteq> None \<and> webgl \<lparr>width = 800, height = 600, webgl = True\<rparr>"
    using b by simp
  have n: "(run_frame ^^ length (frames B)) (resizeObserver_callback B) =
           run_frame (resizeObserver_callback B)"
    using b(3) by simp
  from resize_resizes_canvas_and_rebuilds[OF b(1) b(2) wf, unfolded Let_def n] g
  have "renderer (run_frame (run_frame (resizeObserver_callback B))) =
          Some (next_ref (run_frame (resizeObserver_callback B)))
      \<and> interactiveCanvas (run_frame (run_frame (resizeObserver_callback B))) =
          Some (Suc (next_ref (run_frame (resizeObserver_callback B))))
      \<and> list_all (\<lambda>l. Some (fst (snd l)) \<noteq> interactiveCanvas (run_frame (resizeObserver_callback B)))
          (canvas_listeners (run_frame (run_frame (resizeObserver_callback B)))
           @ document_listeners (run_frame (run_frame (resizeObserver_callback B))))"
    by blast
  then have "renderer (run_frame (run_frame (resizeObserver_callback B))) = Some 2
      \<and> interactiveCanvas (run_frame (run_frame (resizeObserver_callback B))) = Some 3
      \<and> list_all (\<lambda>l. fst (snd l) \<noteq> 1)
          (canvas_listeners (run_frame (run_frame (resizeObserver_callback B)))
           @ document_listeners (run_frame (run_frame (resizeObserver_callback B))))"
    unfolding k(2) k(3) by (simp add: eval_nat_numeral)
  then show ?thesis
    using b(1-5) wf unfolding B_def by blast
qed

text \<open>
  The resize callback and the two frames that follow leave that component with
  renderer \<open>2\<close> and controller \<open>3\<close>: both instances have been replaced.
\<close>

theorem resize_rebuilds_renderer_and_controller:
  "renderer (foldl act (initial_component (Some \<lparr>clientWidth = 800, clientHeight = 600\<rparr>)
       (Some \<lparr>width = 300, height = 150, webgl = True\<rparr>) (3, 4, 0)
       \<lparr>grid = False, invisibleBlocks = False\<rparr> True (Some 0))
     [Mounted, Resized, AnimationFrame]) = Some 0 \<and> interactiveCanvas (foldl act (initial_component (Some \<lparr>clientWidth = 800, clientHeight = 600\<rparr>)
       (Some \<lparr>width = 300, height = 150, webgl = True\<rparr>) (3, 4, 0)
       \<lparr>grid = False, invisibleBlocks = False\<rparr> True (Some 0))
     [Mounted, Resized, AnimationFrame]) = Some 1
   \<and> renderer (foldl act (foldl act (initial_component (Some \<lparr>clientWidth = 800, clientHeight = 600\<rparr>)
       (Some \<lparr>width = 300, height = 150, webgl = True\<rparr>) (3, 4, 0)
       \<lparr>grid = False, invisibleBlocks = False\<rparr> True (Some 0))
     [Mounted, Resized, AnimationFrame]) [ContainerChanged (Some \<lparr>clientWidth = 1024, clientHeight = 768\<rparr>),
        Resized, AnimationFrame, AnimationFrame]) = Some 2
   \<and> interactiveCanvas (foldl act (foldl act (initial_component (Some \<lparr>clientWidth = 800, clientHeight = 600\<rparr>)
       (Some \<lparr>width = 300, height = 150, webgl = True\<rparr>) (3, 4, 0)
       \<lparr>grid = False, invisibleBlocks = False\<rparr> True (Some 0))
     [Mounted, Resized, AnimationFrame]) [ContainerChanged (Some \<lparr>clientWidth = 1024, clientHeight = 768\<rparr>),
        Resized, AnimationFrame, AnimationFrame]) = Some 3
   \<and> canvas (foldl act (foldl act (initial_component (Some \<lparr>clientWidth = 800, clientHeight = 600\<rparr>)
       (Some \<lparr>width = 300, height = 150, webgl = True\<rparr>) (3, 4, 0)
       \<lparr>grid = False, invisibleBlocks = False\<rparr> True (Some 0))
     [Mounted, Resized, AnimationFrame]) [ContainerChanged (Some \<lparr>clientWidth = 1024, clientHeight = 768\<rparr>),
        Resized, AnimationFrame, AnimationFrame]) = Some \<lparr>width = 1024, height = 768, webgl = True\<rparr>"
proof -
  define B where "B = (foldl act (initial_component (Some \<lparr>clientWidth = 800, clientHeight = 600\<rparr>)
       (Some \<lparr>width = 300, height = 150, webgl = True\<rparr>) (3, 4, 0)
       \<lparr>grid = False, invisibleBlocks = False\<rparr> True (Some 0))
     [Mounted, Resized, AnimationFrame,
      ContainerChanged (Some \<lparr>clientWidth = 1024, clientHeight = 768\<rparr>)])"
  note b = resized_built_component[OF B_def]
  note k = frame_of_resized_built_component[OF B_def]
  define B3 where "B3 = run_frame (resizeObserver_callback B)"
  have r3: "run_frame B3 = redraw (B3\<lparr>frames := []\<rparr>)"
    using k(4) by (simp add: run_frame_def B3_def)
  have e1: "B = (foldl act (initial_component (Some \<lparr>clientWidth = 800, clientHeight = 600\<rparr>)
       (Some \<lparr>width = 300, height = 150, webgl = True\<rparr>) (3, 4, 0)
       \<lparr>grid = False, invisibleBlocks = False\<rparr> True (Some 0))
     [Mounted, Resized, AnimationFrame])\<lparr>container := Some \<lparr>clientWidth = 1024, clientHeight = 768\<rparr>\<rparr>"
    unfolding B_def by simp
  have e2: "foldl act (foldl act (initial_component (Some \<lparr>clientWidth = 800, clientHeight = 600\<rparr>)
       (Some \<lparr>width = 300, height = 150, webgl = True\<rparr>) (3, 4, 0)
       \<lparr>grid = False, invisibleBlocks = False\<rparr> True (Some 0))
     [Mounted, Resized, AnimationFrame]) [ContainerChanged (Some \<lparr>clientWidth = 1024, clientHeight = 768\<rparr>),
        Resized, AnimationFrame, AnimationFrame] =
              run_frame (run_frame (resizeObserver_callback
                ((foldl act (initial_component (Some \<lparr>clientWidth = 800, clientHeight = 600\<rparr>)
       (Some \<lparr>width = 300, height = 150, webgl = True\<rparr>) (3, 4, 0)
       \<lparr>grid = False, invisibleBlocks = False\<rparr> True (Some 0))
     [Mounted, Resized, AnimationFrame])\<lparr>container := Some \<lparr>clientWidth = 1024, clientHeight = 768\<rparr>\<rparr>)))"
    unfolding built_component by simp
  have "foldl act (foldl act (initial_component (Some \<lparr>clientWidth = 800, clientHeight = 600\<rparr>)
       (Some \<lparr>width = 300, height = 150, webgl = True\<rparr>) (3, 4, 0)
       \<lparr>grid = False, invisibleBlocks = False\<rparr> True (Some 0))
     [Mounted, Resized, AnimationFrame]) [ContainerChanged (Some \<lparr>clientWidth = 1024, clientHeight = 768\<rparr>),
        Resized, AnimationFrame, AnimationFrame] = run_frame B3"
    unfolding B3_def e1 by (rule e2)
  then have run: "foldl act (foldl act (initial_component (Some \<lparr>clientWidth = 800, clientHeight = 600\<rparr>)
       (Some \<lparr>width = 300, height = 150, webgl = True\<rparr>) (3, 4, 0)
       \<lparr>grid = False, invisibleBlocks = False\<rparr> True (Some 0))
     [Mounted, Resized, AnimationFrame]) [ContainerChanged (Some \<lparr>clientWidth = 1024, clientHeight = 768\<rparr>),
        Resized, AnimationFrame, AnimationFrame] = redraw (B3\<lparr>frames := []\<rparr>)"
    by (simp only: r3)
  have g: "isReady (B3\<lparr>frames := []\<rparr>)" "resources (B3\<lparr>frames := []\<rparr>) \<noteq> None"
    "canvas (B3\<lparr>frames := []\<rparr>) = Some \<lparr>width = 1024, height = 768, webgl = True\<rparr>"
    "webgl \<lparr>width = 1024, height = 768, webgl = True\<rparr>"
    using k by (simp_all add: B3_def)
  have "renderer (foldl act (foldl act (initial_component (Some \<lparr>clientWidth = 800, clientHeight = 600\<rparr>)
       (Some \<lparr>width = 300, height = 150, webgl = True\<rparr>) (3, 4, 0)
       \<lparr>grid = False, invisibleBlocks = False\<rparr> True (Some 0))
     [Mounted, Resized, AnimationFrame]) [ContainerChanged (Some \<lparr>clientWidth = 1024, clientHeight = 768\<rparr>),
        Resized, AnimationFrame, AnimationFrame]) = Some 2"
    and "interactiveCanvas (foldl act (foldl act (initial_component (Some \<lparr>clientWidth = 800, clientHeight = 600\<rparr>)
       (Some \<lparr>width = 300, height = 150, webgl = True\<rparr>) (3, 4, 0)
       \<lparr>grid = False, invisibleBlocks = False\<rparr> True (Some 0))
     [Mounted, Resized, AnimationFrame]) [ContainerChanged (Some \<lparr>clientWidth = 1024, clientHeight = 768\<rparr>),
        Resized, AnimationFrame, AnimationFrame]) = Some 3"
    and "canvas (foldl act (foldl act (initial_component (Some \<lparr>clientWidth = 800, clientHeight = 600\<rparr>)
       (Some \<lparr>width = 300, height = 150, webgl = True\<rparr>) (3, 4, 0)
       \<lparr>grid = False, invisibleBlocks = False\<rparr> True (Some 0))
     [Mounted, Resized, AnimationFrame]) [ContainerChanged (Some \<lparr>clientWidth = 1024, clientHeight = 768\<rparr>),
        Resized, AnimationFrame, AnimationFrame]) = Some \<lparr>width = 1024, height = 768, webgl = True\<rparr>"
    unfolding run using redraw_built[OF g] k by (simp_all add: B3_def eval_nat_numeral)
  moreover have "renderer (foldl act (initial_component (Some \<lparr>clientWidth = 800, clientHeight = 600\<rparr>)
       (Some \<lparr>width = 300, height = 150, webgl = True\<rparr>) (3, 4, 0)
       \<lparr>grid = False, invisibleBlocks = False\<rparr> True (Some 0))
     [Mounted, Resized, AnimationFrame]) = Some 0" "interactiveCanvas (foldl act (initial_component (Some \<lparr>clientWidth = 800, clientHeight = 600\<rparr>)
       (Some \<lparr>width = 300, height = 150, webgl = True\<rparr>) (3, 4, 0)
       \<lparr>grid = False, invisibleBlocks = False\<rparr> True (Some 0))
     [Mounted, Resized, AnimationFrame]) = Some 1"
    unfolding built_component by simp_all
  ultimately show ?thesis by blast
qed

end
